theory Spec2Isabelle
  imports Main "HOL-Library.Word" "HOL-Library.Signed_Division" "HOL-Library.Multiset"
begin

unbundle bit_operations_syntax

section \<open>Kernel module: smartscheduler.c\<close>

text \<open>
  C \<open>int\<close> and \<open>unsigned int\<close> are 32-bit words; the kernel is built with wrapping signed
  arithmetic, so \<open>+\<close>, \<open>-\<close> and \<open>*\<close> on \<open>cint\<close> wrap. Signed readings go through \<open>sint\<close>,
  signed comparisons through \<open><s\<close> and \<open>\<le>s\<close>. \<open>unsigned long\<close> is a 64-bit word.
\<close>

type_synonym cint = "32 word"
type_synonym uint = "32 word"
type_synonym ulong = "64 word"

text \<open>C's \<open>/\<close> on \<open>int\<close>: the quotient truncated towards zero.\<close>

definition c_div :: "cint \<Rightarrow> cint \<Rightarrow> cint" where
  "c_div a b = word_of_int (sint a sdiv sint b)"

definition ALPHA :: cint where "ALPHA = 30"
definition ALPHA_COMPLEMENT :: cint where "ALPHA_COMPLEMENT = 100 - ALPHA"

definition CPU_SPIKE_THRESHOLD :: cint where "CPU_SPIKE_THRESHOLD = 2000"
definition MEM_SPIKE_THRESHOLD :: cint where "MEM_SPIKE_THRESHOLD = 1500"
definition IO_SPIKE_THRESHOLD :: cint where "IO_SPIKE_THRESHOLD = 1000"

definition MAX_TRACKED_PROCS :: int where "MAX_TRACKED_PROCS = 4096"
definition TASK_COMM_LEN :: nat where "TASK_COMM_LEN = 16"

definition FLAG_CPU_SPIKE_PREDICTED :: uint where "FLAG_CPU_SPIKE_PREDICTED = push_bit 0 1"
definition FLAG_MEM_SPIKE_PREDICTED :: uint where "FLAG_MEM_SPIKE_PREDICTED = push_bit 1 1"
definition FLAG_IO_SPIKE_PREDICTED :: uint where "FLAG_IO_SPIKE_PREDICTED = push_bit 2 1"
definition FLAG_ACTIVE :: uint where "FLAG_ACTIVE = push_bit 7 1"

record proc_signature =
  sig_pid :: int
  sig_comm :: string
  cpu_ema :: cint
  mem_ema :: cint
  io_ema :: cint
  cpu_prev :: cint
  mem_prev :: cint
  io_prev :: cint
  cpu_roc :: cint
  mem_roc :: cint
  io_roc :: cint
  flags :: uint
  last_update :: ulong
  created :: ulong
  cpu_spikes_predicted :: ulong
  mem_spikes_predicted :: ulong
  io_spikes_predicted :: ulong
  total_samples :: ulong

subsection \<open>Statistical functions\<close>

definition update_ema :: "cint \<Rightarrow> cint \<Rightarrow> cint" where
  "update_ema old_ema sample = c_div (ALPHA * sample + ALPHA_COMPLEMENT * old_ema) 100"

definition calc_rate_of_change :: "cint \<Rightarrow> cint \<Rightarrow> cint" where
  "calc_rate_of_change current_val previous = current_val - previous"

definition is_spike_predicted :: "cint \<Rightarrow> cint \<Rightarrow> bool" where
  "is_spike_predicted roc threshold = (threshold <s roc)"

subsection \<open>Updating one signature\<close>

text \<open>
  \<open>update_signature\<close> mutates the signature and the global counter \<open>total_predictions\<close>;
  the model threads both. The three flag blocks are the three \<open>if\<close> statements of the
  source, in order. \<open>jiffies\<close> is the kernel clock read at the end of the update.
\<close>

definition mark_cpu :: "proc_signature \<times> cint \<Rightarrow> proc_signature \<times> cint" where
  "mark_cpu st = (case st of (sig, total_predictions) \<Rightarrow>
     if is_spike_predicted (cpu_roc sig) CPU_SPIKE_THRESHOLD
     then (sig\<lparr>flags := flags sig OR FLAG_CPU_SPIKE_PREDICTED,
               cpu_spikes_predicted := cpu_spikes_predicted sig + 1\<rparr>,
           total_predictions + 1)
     else (sig, total_predictions))"

definition mark_mem :: "proc_signature \<times> cint \<Rightarrow> proc_signature \<times> cint" where
  "mark_mem st = (case st of (sig, total_predictions) \<Rightarrow>
     if is_spike_predicted (mem_roc sig) MEM_SPIKE_THRESHOLD
     then (sig\<lparr>flags := flags sig OR FLAG_MEM_SPIKE_PREDICTED,
               mem_spikes_predicted := mem_spikes_predicted sig + 1\<rparr>,
           total_predictions + 1)
     else (sig, total_predictions))"

definition mark_io :: "proc_signature \<times> cint \<Rightarrow> proc_signature \<times> cint" where
  "mark_io st = (case st of (sig, total_predictions) \<Rightarrow>
     if is_spike_predicted (io_roc sig) IO_SPIKE_THRESHOLD
     then (sig\<lparr>flags := flags sig OR FLAG_IO_SPIKE_PREDICTED,
               io_spikes_predicted := io_spikes_predicted sig + 1\<rparr>,
           total_predictions + 1)
     else (sig, total_predictions))"

definition store_ema :: "proc_signature \<Rightarrow> cint \<Rightarrow> cint \<Rightarrow> cint \<Rightarrow> proc_signature" where
  "store_ema sig cpu_sample mem_sample io_sample =
     (let s1 = sig\<lparr>cpu_prev := cpu_ema sig, mem_prev := mem_ema sig, io_prev := io_ema sig\<rparr>;
          s2 = s1\<lparr>cpu_ema := update_ema (cpu_ema s1) cpu_sample,
                  mem_ema := update_ema (mem_ema s1) mem_sample,
                  io_ema := update_ema (io_ema s1) io_sample\<rparr>
      in s2\<lparr>cpu_roc := calc_rate_of_change (cpu_ema s2) (cpu_prev s2),
             mem_roc := calc_rate_of_change (mem_ema s2) (mem_prev s2),
             io_roc := calc_rate_of_change (io_ema s2) (io_prev s2)\<rparr>)"

definition clear_flags :: "proc_signature \<Rightarrow> proc_signature" where
  "clear_flags sig = sig\<lparr>flags := flags sig AND
     NOT (FLAG_CPU_SPIKE_PREDICTED OR FLAG_MEM_SPIKE_PREDICTED OR FLAG_IO_SPIKE_PREDICTED)\<rparr>"

definition update_signature ::
  "ulong \<Rightarrow> proc_signature \<Rightarrow> cint \<Rightarrow> cint \<Rightarrow> cint \<Rightarrow> cint \<Rightarrow> proc_signature \<times> cint" where
  "update_signature jiffies sig cpu_sample mem_sample io_sample total_predictions =
     (case mark_io (mark_mem (mark_cpu
              (clear_flags (store_ema sig cpu_sample mem_sample io_sample), total_predictions))) of
        (s, tp) \<Rightarrow> (s\<lparr>total_samples := total_samples s + 1, last_update := jiffies\<rparr>, tp))"

text \<open>Repeated updates of one EMA with the same sample.\<close>

fun ema_iter :: "nat \<Rightarrow> cint \<Rightarrow> cint \<Rightarrow> cint" where
  "ema_iter 0 e s = e"
| "ema_iter (Suc n) e s = update_ema (ema_iter n e s) s"

text \<open>Values whose hundredfold fits a 32-bit \<open>int\<close>.\<close>

definition ema_in_range :: "cint \<Rightarrow> bool" where
  "ema_in_range x = (- 21474836 \<le> sint x \<and> sint x \<le> 21474836)"

subsection \<open>Signature store\<close>

text \<open>
  The hash table \<open>proc_signatures\<close> is keyed by pid: a lookup walks the bucket of the pid
  and compares \<open>sig->pid\<close>. The model keeps the entries in one list, newest first (as
  \<open>hash_add\<close> links a new node at the head of its bucket), and a lookup returns the position
  of the first entry with that pid. The counter \<open>total_tracked\<close> is kept beside the table,
  as in the source, and the capacity check reads the counter. The counter is an integer: it
  is only incremented below 4096, so it never wraps.
\<close>

record kstate =
  proc_signatures :: "proc_signature list"
  total_tracked :: int
  total_predictions :: cint

text \<open>\<open>kzalloc\<close> followed by the field assignments of \<open>get_or_create_signature\<close>.\<close>

definition new_signature :: "ulong \<Rightarrow> int \<Rightarrow> string \<Rightarrow> proc_signature" where
  "new_signature jiffies pid comm_arg =
     \<lparr>sig_pid = pid, sig_comm = take (TASK_COMM_LEN - 1) comm_arg,
      cpu_ema = 0, mem_ema = 0, io_ema = 0,
      cpu_prev = 0, mem_prev = 0, io_prev = 0,
      cpu_roc = 0, mem_roc = 0, io_roc = 0,
      flags = FLAG_ACTIVE, last_update = jiffies, created = jiffies,
      cpu_spikes_predicted = 0, mem_spikes_predicted = 0, io_spikes_predicted = 0,
      total_samples = 0\<rparr>"

fun find_signature :: "proc_signature list \<Rightarrow> int \<Rightarrow> nat option" where
  "find_signature [] pid = None"
| "find_signature (s # ss) pid =
     (if sig_pid s = pid then Some 0 else map_option Suc (find_signature ss pid))"

text \<open>
  The result is the position of the signature (\<open>None\<close> is the source's \<open>NULL\<close>) and the
  new state. \<open>kzalloc_ok\<close> says whether the allocation succeeds.
\<close>

definition get_or_create_signature ::
  "bool \<Rightarrow> ulong \<Rightarrow> int \<Rightarrow> string \<Rightarrow> kstate \<Rightarrow> nat option \<times> kstate" where
  "get_or_create_signature kzalloc_ok jiffies pid comm_arg st =
     (case find_signature (proc_signatures st) pid of
        Some i \<Rightarrow> (Some i, st)
      | None \<Rightarrow>
          if MAX_TRACKED_PROCS \<le> total_tracked st then (None, st)
          else if \<not> kzalloc_ok then (None, st)
          else (Some 0, st\<lparr>proc_signatures := new_signature jiffies pid comm_arg # proc_signatures st,
                             total_tracked := total_tracked st + 1\<rparr>))"

text \<open>\<open>remove_signature\<close> unlinks one entry; no function of the module calls it.\<close>

definition remove_signature :: "nat \<Rightarrow> kstate \<Rightarrow> kstate" where
  "remove_signature i st =
     st\<lparr>proc_signatures := take i (proc_signatures st) @ drop (Suc i) (proc_signatures st),
        total_tracked := total_tracked st - 1\<rparr>"

subsection \<open>Sampling tick\<close>

text \<open>
  One entry of the process list walked by \<open>for_each_process\<close>. The three samples are what
  \<open>get_cpu_sample\<close>, \<open>get_mem_sample\<close> and \<open>get_io_sample\<close> read from the task.
\<close>

record task =
  t_pid :: int
  t_comm :: string
  t_kthread :: bool
  t_exit_state :: int
  t_cpu_sample :: cint
  t_mem_sample :: cint
  t_io_sample :: cint

text \<open>The body of the \<open>for_each_process\<close> loop, for one task.\<close>

definition sample_task :: "(int \<Rightarrow> bool) \<Rightarrow> ulong \<Rightarrow> task \<Rightarrow> kstate \<Rightarrow> kstate" where
  "sample_task kzalloc_ok jiffies t st =
     (if t_kthread t then st
      else if t_exit_state t \<noteq> 0 then st
      else (case get_or_create_signature (kzalloc_ok (t_pid t)) jiffies (t_pid t) (t_comm t) st of
              (None, st1) \<Rightarrow> st1
            | (Some i, st1) \<Rightarrow>
                (case update_signature jiffies (proc_signatures st1 ! i)
                        (t_cpu_sample t) (t_mem_sample t) (t_io_sample t) (total_predictions st1) of
                   (sig, tp) \<Rightarrow>
                     st1\<lparr>proc_signatures := (proc_signatures st1)[i := sig],
                         total_predictions := tp\<rparr>)))"

text \<open>
  The timer callback walks the process list once. (Taking the lock and re-arming the timer
  do not change the store.)
\<close>

definition sample_timer_callback :: "(int \<Rightarrow> bool) \<Rightarrow> ulong \<Rightarrow> task list \<Rightarrow> kstate \<Rightarrow> kstate" where
  "sample_timer_callback kzalloc_ok jiffies tasks st = fold (sample_task kzalloc_ok jiffies) tasks st"

definition kstate_init :: kstate where
  "kstate_init = \<lparr>proc_signatures = [], total_tracked = 0, total_predictions = 0\<rparr>"

text \<open>The pids that have a signature.\<close>

definition store_pids :: "kstate \<Rightarrow> int set" where
  "store_pids st = sig_pid ` set (proc_signatures st)"

text \<open>The pids of a snapshot that the tick samples: not kernel threads, not exiting.\<close>

definition sampled_pids :: "task list \<Rightarrow> int set" where
  "sampled_pids tasks = t_pid ` {t \<in> set tasks. \<not> t_kthread t \<and> t_exit_state t = 0}"

text \<open>
  Calling \<open>get_or_create_signature\<close> once for each pid of a list; the first component
  counts the calls that return \<open>NULL\<close>.
\<close>

fun insert_all :: "bool \<Rightarrow> ulong \<Rightarrow> int list \<Rightarrow> kstate \<Rightarrow> nat \<times> kstate" where
  "insert_all kzalloc_ok jiffies [] st = (0, st)"
| "insert_all kzalloc_ok jiffies (pid # pids) st =
     (case get_or_create_signature kzalloc_ok jiffies pid ''proc'' st of
        (None, st1) \<Rightarrow>
          (case insert_all kzalloc_ok jiffies pids st1 of (failures, st2) \<Rightarrow> (Suc failures, st2))
      | (Some i, st1) \<Rightarrow> insert_all kzalloc_ok jiffies pids st1)"

text \<open>Example values: a store with 4096 signatures, and three entries of a process list.\<close>

definition full_store :: kstate where
  "full_store =
     \<lparr>proc_signatures = map (\<lambda>k. new_signature 0 (int k) ''proc'') [0..<4096],
      total_tracked = 4096, total_predictions = 0\<rparr>"

definition task_user :: task where
  "task_user = \<lparr>t_pid = 1, t_comm = ''worker'', t_kthread = False, t_exit_state = 0,
                 t_cpu_sample = 8000, t_mem_sample = 300, t_io_sample = 20\<rparr>"

definition task_kthread :: task where
  "task_kthread = \<lparr>t_pid = 2, t_comm = ''kworker'', t_kthread = True, t_exit_state = 0,
                    t_cpu_sample = 100, t_mem_sample = 0, t_io_sample = 0\<rparr>"

definition task_zombie :: task where
  "task_zombie = \<lparr>t_pid = 3, t_comm = ''defunct'', t_kthread = False, t_exit_state = 16,
                   t_cpu_sample = 0, t_mem_sample = 0, t_io_sample = 0\<rparr>"

text \<open>
  A store one short of full, and two more tasks of a process list, with pids the store does
  not hold.
\<close>

definition almost_full_store :: kstate where
  "almost_full_store =
     \<lparr>proc_signatures = map (\<lambda>k. new_signature 0 (int k) ''proc'') [0..<4095],
      total_tracked = 4095, total_predictions = 0\<rparr>"

definition task_late_a :: task where
  "task_late_a = \<lparr>t_pid = 5000, t_comm = ''late_a'', t_kthread = False, t_exit_state = 0,
                   t_cpu_sample = 100, t_mem_sample = 0, t_io_sample = 0\<rparr>"

definition task_late_b :: task where
  "task_late_b = \<lparr>t_pid = 5001, t_comm = ''late_b'', t_kthread = False, t_exit_state = 0,
                   t_cpu_sample = 100, t_mem_sample = 0, t_io_sample = 0\<rparr>"

section \<open>Response daemon: scheduler_daemon.c\<close>

text \<open>
  Counters and bit masks of type \<open>int\<close> are 32-bit words, compared as signed values.
  Pids, nice values and \<open>time_t\<close> seconds are integers (the source only compares and
  subtracts them). The flag \<open>adjusted\<close>, an \<open>int\<close> that only ever holds 0 or 1, is a
  boolean.
\<close>

definition MAX_TRACKED :: int where "MAX_TRACKED = 1024"

definition SPIKE_CPU :: cint where "SPIKE_CPU = 1"
definition SPIKE_MEM :: cint where "SPIKE_MEM = 2"
definition SPIKE_IO :: cint where "SPIKE_IO = 4"

datatype EscalationLevel =
  ESCALATION_NONE | ESCALATION_ADVISORY | ESCALATION_SOFT | ESCALATION_HARD | ESCALATION_CRITICAL

text \<open>The enumeration values, for the source's \<open>level >= ESCALATION_HARD\<close>.\<close>

fun level_value :: "EscalationLevel \<Rightarrow> nat" where
  "level_value ESCALATION_NONE = 0"
| "level_value ESCALATION_ADVISORY = 1"
| "level_value ESCALATION_SOFT = 2"
| "level_value ESCALATION_HARD = 3"
| "level_value ESCALATION_CRITICAL = 4"

datatype ActionResult = ACTION_SUCCESS | ACTION_FAILED | ACTION_SKIPPED | ACTION_COOLDOWN

record SpikeConfig =
  cfg_name :: string
  nice_boost :: int
  ionice_class :: int
  ionice_level :: int
  cooldown_secs :: int
  persistent_threshold :: int

definition spike_configs :: "SpikeConfig list" where
  "spike_configs =
     [\<lparr>cfg_name = ''CPU'', nice_boost = - 5, ionice_class = 0, ionice_level = 0,
       cooldown_secs = 10, persistent_threshold = 5\<rparr>,
      \<lparr>cfg_name = ''MEM'', nice_boost = 0, ionice_class = 0, ionice_level = 0,
       cooldown_secs = 15, persistent_threshold = 8\<rparr>,
      \<lparr>cfg_name = ''I/O'', nice_boost = 0, ionice_class = 2, ionice_level = 0,
       cooldown_secs = 10, persistent_threshold = 5\<rparr>]"

record TrackedProcess =
  tp_pid :: int
  tp_comm :: string
  original_nice :: int
  current_nice :: int
  adjusted :: bool
  adjusted_time :: int
  last_seen :: int
  spike_type :: cint
  spike_samples :: cint
  escalation :: EscalationLevel
  action_count :: cint

record daemon_stats =
  cpu_advisories :: cint
  mem_advisories :: cint
  io_advisories :: cint
  cpu_boosts :: cint
  mem_actions :: cint
  io_boosts :: cint
  restorations :: cint
  escalations :: cint
  persistent_spikes :: cint

text \<open>
  What the daemon does to the outside is recorded in the state: \<open>log\<close> holds every call of
  \<open>log_action\<close> (category, action, pid and name, without the message text), and \<open>sink\<close>
  holds every request to change a
  process: a call of \<open>set_nice\<close>, a call of \<open>set_io_priority\<close>, or the command that writes
  \<open>oom_score_adj\<close>.
\<close>

datatype sink_call = SetNice int int | SetIoPriority int int int | OomScoreAdj int int

type_synonym log_entry = "string \<times> string \<times> int \<times> string"

text \<open>
  The array \<open>tracked[MAX_TRACKED]\<close> with its fill count \<open>tracked_count\<close> is the list of the
  entries in use.
\<close>

record daemon =
  tracked :: "TrackedProcess list"
  stats :: daemon_stats
  log :: "log_entry list"
  sink :: "sink_call list"

definition tracked_count :: "daemon \<Rightarrow> int" where
  "tracked_count st = int (length (tracked st))"

text \<open>
  The operating system as the daemon sees it: the \<open>-n\<close> switch, whether \<open>setpriority\<close> and
  the \<open>ionice\<close> command succeed, and what \<open>getpriority\<close> returns (\<open>None\<close> for an error).
\<close>

record os_env =
  dry_run :: bool
  setpriority_ok :: "int \<Rightarrow> int \<Rightarrow> bool"
  ionice_ok :: "int \<Rightarrow> int \<Rightarrow> int \<Rightarrow> bool"
  getpriority :: "int \<Rightarrow> int option"

definition daemon_init :: daemon where
  "daemon_init =
     \<lparr>tracked = [],
      stats = \<lparr>cpu_advisories = 0, mem_advisories = 0, io_advisories = 0, cpu_boosts = 0,
               mem_actions = 0, io_boosts = 0, restorations = 0, escalations = 0,
               persistent_spikes = 0\<rparr>,
      log = [], sink = []\<rparr>"

definition log_action :: "string \<Rightarrow> string \<Rightarrow> int \<Rightarrow> string \<Rightarrow> daemon \<Rightarrow> daemon" where
  "log_action category action pid comm_arg st = st\<lparr>log := log st @ [(category, action, pid, comm_arg)]\<rparr>"

fun find_tracked :: "TrackedProcess list \<Rightarrow> int \<Rightarrow> nat option" where
  "find_tracked [] pid = None"
| "find_tracked (p # ps) pid =
     (if tp_pid p = pid then Some 0 else map_option Suc (find_tracked ps pid))"

text \<open>\<open>memset\<close> to zero, then pid, name (at most 31 characters) and \<open>last_seen\<close>.\<close>

definition new_tracked :: "int \<Rightarrow> int \<Rightarrow> string \<Rightarrow> TrackedProcess" where
  "new_tracked now pid comm_arg =
     \<lparr>tp_pid = pid, tp_comm = take 31 comm_arg, original_nice = 0, current_nice = 0,
      adjusted = False, adjusted_time = 0, last_seen = now, spike_type = 0, spike_samples = 0,
      escalation = ESCALATION_NONE, action_count = 0\<rparr>"

definition add_tracked :: "int \<Rightarrow> int \<Rightarrow> string \<Rightarrow> daemon \<Rightarrow> (nat \<times> daemon) option" where
  "add_tracked now pid comm_arg st =
     (if MAX_TRACKED \<le> tracked_count st then None
      else Some (length (tracked st), st\<lparr>tracked := tracked st @ [new_tracked now pid comm_arg]\<rparr>))"

definition get_nice :: "os_env \<Rightarrow> int \<Rightarrow> int" where
  "get_nice os pid = (case getpriority os pid of None \<Rightarrow> 0 | Some n \<Rightarrow> n)"

definition set_nice :: "os_env \<Rightarrow> int \<Rightarrow> int \<Rightarrow> string \<Rightarrow> daemon \<Rightarrow> ActionResult \<times> daemon" where
  "set_nice os pid nice_val comm_arg st =
     (let st1 = st\<lparr>sink := sink st @ [SetNice pid nice_val]\<rparr>
      in if dry_run os then (ACTION_SUCCESS, log_action ''DRY-RUN'' ''Would set nice'' pid comm_arg st1)
         else if setpriority_ok os pid nice_val then (ACTION_SUCCESS, st1)
         else (ACTION_FAILED, st1))"

definition set_io_priority ::
  "os_env \<Rightarrow> int \<Rightarrow> int \<Rightarrow> int \<Rightarrow> string \<Rightarrow> daemon \<Rightarrow> ActionResult \<times> daemon" where
  "set_io_priority os pid ioprio_class ioprio_level comm_arg st =
     (let st1 = st\<lparr>sink := sink st @ [SetIoPriority pid ioprio_class ioprio_level]\<rparr>
      in if dry_run os then (ACTION_SUCCESS, log_action ''DRY-RUN'' ''Would set ionice'' pid comm_arg st1)
         else if ionice_ok os pid ioprio_class ioprio_level then (ACTION_SUCCESS, st1)
         else (ACTION_FAILED, st1))"

definition get_escalation_level :: "TrackedProcess \<Rightarrow> EscalationLevel" where
  "get_escalation_level p =
     (if spike_samples p \<le>s 2 then ESCALATION_ADVISORY
      else if spike_samples p \<le>s 5 then ESCALATION_SOFT
      else if spike_samples p \<le>s 10 then ESCALATION_HARD
      else ESCALATION_CRITICAL)"

subsection \<open>Spike handlers\<close>

text \<open>
  Each handler starts with \<open>find_tracked\<close> and, for an unknown pid, \<open>add_tracked\<close>; it
  returns at once when the table is full. The pointer \<open>p\<close> into the array is the index of
  the entry. \<open>now\<close> is the value of \<open>time(NULL)\<close> read by the handler.
\<close>

definition track :: "int \<Rightarrow> int \<Rightarrow> string \<Rightarrow> daemon \<Rightarrow> (nat \<times> daemon) option" where
  "track now pid comm_arg st =
     (case find_tracked (tracked st) pid of
        Some i \<Rightarrow> Some (i, st)
      | None \<Rightarrow> add_tracked now pid comm_arg st)"

definition track_cpu :: "os_env \<Rightarrow> int \<Rightarrow> int \<Rightarrow> string \<Rightarrow> daemon \<Rightarrow> (nat \<times> daemon) option" where
  "track_cpu os now pid comm_arg st =
     (case find_tracked (tracked st) pid of
        Some i \<Rightarrow> Some (i, st)
      | None \<Rightarrow>
          (case add_tracked now pid comm_arg st of
             None \<Rightarrow> None
           | Some (i, st1) \<Rightarrow>
               Some (i, st1\<lparr>tracked :=
                      (tracked st1)[i := (tracked st1 ! i)\<lparr>original_nice := get_nice os pid\<rparr>]\<rparr>)))"

text \<open>The three assignments every handler makes before it looks at the level.\<close>

definition note_spike :: "cint \<Rightarrow> int \<Rightarrow> TrackedProcess \<Rightarrow> TrackedProcess" where
  "note_spike kind now p =
     p\<lparr>spike_type := spike_type p OR kind, spike_samples := spike_samples p + 1, last_seen := now\<rparr>"

definition cpu_nice_boost :: "EscalationLevel \<Rightarrow> int" where
  "cpu_nice_boost level =
     (let b0 = nice_boost (spike_configs ! 0);
          b1 = (if level_value ESCALATION_HARD \<le> level_value level then - 10 else b0)
      in if level_value ESCALATION_CRITICAL \<le> level_value level then - 15 else b1)"

text \<open>
  A handler is the lookup followed by its body; the body works on the entry at index \<open>i\<close>.
\<close>

definition cpu_spike_body ::
  "os_env \<Rightarrow> int \<Rightarrow> int \<Rightarrow> string \<Rightarrow> cint \<Rightarrow> nat \<Rightarrow> daemon \<Rightarrow> daemon" where
  "cpu_spike_body os now pid comm_arg roc i st0 =
          (let p = note_spike SPIKE_CPU now (tracked st0 ! i);
               st1 = st0\<lparr>tracked := (tracked st0)[i := p]\<rparr>;
               level = get_escalation_level p
           in if level = ESCALATION_ADVISORY then
                (log_action ''CPU'' ''ADVISORY'' pid comm_arg st1)
                  \<lparr>stats := (stats st1)\<lparr>cpu_advisories := cpu_advisories (stats st1) + 1\<rparr>\<rparr>
              else if adjusted p \<and> now - adjusted_time p < cooldown_secs (spike_configs ! 0) then st1
              else
                (case set_nice os pid (cpu_nice_boost level) comm_arg st1 of
                   (r, st2) \<Rightarrow>
                     if r = ACTION_SUCCESS then
                       log_action ''CPU'' ''BOOST'' pid comm_arg
                         (st2\<lparr>tracked := (tracked st2)[i := p\<lparr>current_nice := cpu_nice_boost level,
                                  adjusted := True, adjusted_time := now, escalation := level,
                                  action_count := action_count p + 1\<rparr>],
                              stats := (stats st2)\<lparr>cpu_boosts := cpu_boosts (stats st2) + 1,
                                  escalations := escalations (stats st2) +
                                    (if level_value ESCALATION_HARD \<le> level_value level then 1 else 0)\<rparr>\<rparr>)
                     else st2))"

definition handle_cpu_spike :: "os_env \<Rightarrow> int \<Rightarrow> int \<Rightarrow> string \<Rightarrow> cint \<Rightarrow> daemon \<Rightarrow> daemon" where
  "handle_cpu_spike os now pid comm_arg roc st =
     (case track_cpu os now pid comm_arg st of
        None \<Rightarrow> st
      | Some (i, st0) \<Rightarrow> cpu_spike_body os now pid comm_arg roc i st0)"

definition mem_spike_body ::
  "os_env \<Rightarrow> int \<Rightarrow> int \<Rightarrow> string \<Rightarrow> cint \<Rightarrow> nat \<Rightarrow> daemon \<Rightarrow> daemon" where
  "mem_spike_body os now pid comm_arg roc i st0 =
          (let p = note_spike SPIKE_MEM now (tracked st0 ! i);
               st1 = st0\<lparr>tracked := (tracked st0)[i := p]\<rparr>;
               level = get_escalation_level p
           in if level = ESCALATION_ADVISORY then
                (log_action ''MEM'' ''ADVISORY'' pid comm_arg st1)
                  \<lparr>stats := (stats st1)\<lparr>mem_advisories := mem_advisories (stats st1) + 1\<rparr>\<rparr>
              else if level = ESCALATION_SOFT then
                (log_action ''MEM'' ''WARNING'' pid comm_arg st1)
                  \<lparr>stats := (stats st1)\<lparr>mem_advisories := mem_advisories (stats st1) + 1\<rparr>\<rparr>
              else if level_value ESCALATION_HARD \<le> level_value level then
                (let st2 = (log_action ''MEM'' ''ALERT'' pid comm_arg st1)
                             \<lparr>stats := (stats st1)\<lparr>mem_actions := mem_actions (stats st1) + 1,
                                 persistent_spikes := persistent_spikes (stats st1) + 1\<rparr>\<rparr>
                 in if level_value ESCALATION_CRITICAL \<le> level_value level \<and> \<not> dry_run os then
                      log_action ''MEM'' ''OOM_SCORE'' pid comm_arg
                        (st2\<lparr>sink := sink st2 @ [OomScoreAdj pid 500]\<rparr>)
                    else st2)
              else st1)"

definition handle_mem_spike :: "os_env \<Rightarrow> int \<Rightarrow> int \<Rightarrow> string \<Rightarrow> cint \<Rightarrow> daemon \<Rightarrow> daemon" where
  "handle_mem_spike os now pid comm_arg roc st =
     (case track now pid comm_arg st of
        None \<Rightarrow> st
      | Some (i, st0) \<Rightarrow> mem_spike_body os now pid comm_arg roc i st0)"

definition io_class_level :: "EscalationLevel \<Rightarrow> int \<times> int" where
  "io_class_level level =
     (if level_value ESCALATION_HARD \<le> level_value level then (1, 4)
      else (ionice_class (spike_configs ! 2), ionice_level (spike_configs ! 2)))"

definition io_spike_body ::
  "os_env \<Rightarrow> int \<Rightarrow> int \<Rightarrow> string \<Rightarrow> cint \<Rightarrow> nat \<Rightarrow> daemon \<Rightarrow> daemon" where
  "io_spike_body os now pid comm_arg roc i st0 =
          (let p = note_spike SPIKE_IO now (tracked st0 ! i);
               st1 = st0\<lparr>tracked := (tracked st0)[i := p]\<rparr>;
               level = get_escalation_level p
           in if level = ESCALATION_ADVISORY then
                (log_action ''I/O'' ''ADVISORY'' pid comm_arg st1)
                  \<lparr>stats := (stats st1)\<lparr>io_advisories := io_advisories (stats st1) + 1\<rparr>\<rparr>
              else if adjusted p \<and> now - adjusted_time p < cooldown_secs (spike_configs ! 2) then st1
              else
                (case io_class_level level of
                   (io_class, io_level) \<Rightarrow>
                     (case set_io_priority os pid io_class io_level comm_arg st1 of
                        (r, st2) \<Rightarrow>
                          if r = ACTION_SUCCESS then
                            log_action ''I/O'' ''BOOST'' pid comm_arg
                              (st2\<lparr>tracked := (tracked st2)[i := p\<lparr>adjusted := True,
                                       adjusted_time := now, action_count := action_count p + 1\<rparr>],
                                   stats := (stats st2)\<lparr>io_boosts := io_boosts (stats st2) + 1\<rparr>\<rparr>)
                          else st2)))"

definition handle_io_spike :: "os_env \<Rightarrow> int \<Rightarrow> int \<Rightarrow> string \<Rightarrow> cint \<Rightarrow> daemon \<Rightarrow> daemon" where
  "handle_io_spike os now pid comm_arg roc st =
     (case track now pid comm_arg st of
        None \<Rightarrow> st
      | Some (i, st0) \<Rightarrow> io_spike_body os now pid comm_arg roc i st0)"

subsection \<open>Restoration\<close>

text \<open>The four assignments to the entry after a successful restoring \<open>set_nice\<close>.\<close>

definition restored :: "TrackedProcess \<Rightarrow> TrackedProcess" where
  "restored p = p\<lparr>adjusted := False, current_nice := original_nice p, spike_samples := 0,
                  escalation := ESCALATION_NONE\<rparr>"

text \<open>The body of the loop of \<open>restore_priorities\<close>, for the entry at index \<open>i\<close>.\<close>

definition restore_one :: "os_env \<Rightarrow> int \<Rightarrow> nat \<Rightarrow> daemon \<Rightarrow> daemon" where
  "restore_one os now i st =
     (let p = tracked st ! i
      in if adjusted p \<and> now - last_seen p > 5 then
           (case set_nice os (tp_pid p) (original_nice p) (tp_comm p) st of
              (r, st1) \<Rightarrow>
                if r = ACTION_SUCCESS then
                  (log_action ''RESTORE'' ''PRIORITY'' (tp_pid p) (tp_comm p) st1)
                    \<lparr>tracked := (tracked st1)[i := restored p],
                     stats := (stats st1)\<lparr>restorations := restorations (stats st1) + 1\<rparr>\<rparr>
                else st1)
         else st)"

definition restore_priorities :: "os_env \<Rightarrow> int \<Rightarrow> daemon \<Rightarrow> daemon" where
  "restore_priorities os now st = fold (restore_one os now) [0..<length (tracked st)] st"

subsection \<open>One pass over the predictions file\<close>

text \<open>
  A parsed line of the predictions file, with the rates of change that \<open>read_roc_values\<close>
  finds for the pid in the stats file.
\<close>

record prediction_row =
  row_pid :: int
  row_comm :: string
  cpu_flag :: char
  mem_flag :: char
  io_flag :: char
  row_cpu_roc :: cint
  row_mem_roc :: cint
  row_io_roc :: cint

definition handle_row :: "os_env \<Rightarrow> int \<Rightarrow> prediction_row \<Rightarrow> daemon \<Rightarrow> daemon" where
  "handle_row os now r st =
     (let st1 = (if cpu_flag r = CHR ''*''
                 then handle_cpu_spike os now (row_pid r) (row_comm r) (row_cpu_roc r) st else st);
          st2 = (if mem_flag r = CHR ''*''
                 then handle_mem_spike os now (row_pid r) (row_comm r) (row_mem_roc r) st1 else st1)
      in if io_flag r = CHR ''*''
         then handle_io_spike os now (row_pid r) (row_comm r) (row_io_roc r) st2 else st2)"

text \<open>\<open>None\<close> is a predictions file that cannot be opened: the pass ends before restoring.\<close>

definition process_predictions ::
  "os_env \<Rightarrow> int \<Rightarrow> prediction_row list option \<Rightarrow> daemon \<Rightarrow> daemon" where
  "process_predictions os now file st =
     (case file of
        None \<Rightarrow> st
      | Some rows \<Rightarrow> restore_priorities os now (fold (handle_row os now) rows st))"

text \<open>
  The daemon's state only changes through the three handlers and the restoring loop. A run
  is any sequence of such calls, each with its own clock reading and environment.
\<close>

datatype event =
  CpuSpike int string cint | MemSpike int string cint | IoSpike int string cint | RestoreAll

fun daemon_step :: "os_env \<times> int \<times> event \<Rightarrow> daemon \<Rightarrow> daemon" where
  "daemon_step (os, now, CpuSpike pid comm_arg roc) st = handle_cpu_spike os now pid comm_arg roc st"
| "daemon_step (os, now, MemSpike pid comm_arg roc) st = handle_mem_spike os now pid comm_arg roc st"
| "daemon_step (os, now, IoSpike pid comm_arg roc) st = handle_io_spike os now pid comm_arg roc st"
| "daemon_step (os, now, RestoreAll) st = restore_priorities os now st"

definition run_events :: "(os_env \<times> int \<times> event) list \<Rightarrow> daemon \<Rightarrow> daemon" where
  "run_events evs st = fold daemon_step evs st"

text \<open>Example values: two environments, and a tracking table with all 1024 entries in use.\<close>

definition env_live :: os_env where
  "env_live = \<lparr>dry_run = False, setpriority_ok = (\<lambda>pid n. True),
                ionice_ok = (\<lambda>pid c l. True), getpriority = (\<lambda>pid. Some 0)\<rparr>"

definition env_dry :: os_env where
  "env_dry = \<lparr>dry_run = True, setpriority_ok = (\<lambda>pid n. False),
               ionice_ok = (\<lambda>pid c l. False), getpriority = (\<lambda>pid. None)\<rparr>"

definition full_table :: daemon where
  "full_table = daemon_init\<lparr>tracked := map (\<lambda>k. new_tracked 0 (int k) ''proc'') [0..<1024]\<rparr>"

text \<open>A line of the predictions file that flags a CPU spike for pid 9.\<close>

definition row_other :: prediction_row where
  "row_other = \<lparr>row_pid = 9, row_comm = ''other'', cpu_flag = CHR ''*'', mem_flag = CHR ''-'',
                 io_flag = CHR ''-'', row_cpu_roc = 2600, row_mem_roc = 0, row_io_roc = 0\<rparr>"

text \<open>
  What the sample count and the stored level of an entry are checked against along a run
  of \<open>n\<close> calls: the count lies between 0 and \<open>n\<close>, an entry with count 0 has the stored
  level NONE, and the stored level is not above the level of the count.
\<close>

definition entry_counted :: "nat \<Rightarrow> TrackedProcess \<Rightarrow> bool" where
  "entry_counted n p =
     (0 \<le> sint (spike_samples p) \<and> sint (spike_samples p) \<le> int n \<and>
      (spike_samples p = 0 \<longrightarrow> escalation p = ESCALATION_NONE) \<and>
      level_value (escalation p) \<le> level_value (get_escalation_level p))"

section \<open>Ranking tool: top_spikes.c\<close>

definition MAX_PROCS :: nat where "MAX_PROCS = 512"

record Process =
  ps_pid :: int
  ps_cpu_ema :: cint
  ps_mem_ema :: cint
  ps_io_ema :: cint
  ps_cpu_roc :: cint
  ps_mem_roc :: cint
  ps_io_roc :: cint
  score :: cint

text \<open>C's \<open>abs\<close> on a 32-bit \<open>int\<close>.\<close>

definition c_abs :: "cint \<Rightarrow> cint" where
  "c_abs x = (if x <s 0 then - x else x)"

definition compare_by_score :: "Process \<Rightarrow> Process \<Rightarrow> cint" where
  "compare_by_score a b = score b - score a"

definition compare_by_cpu :: "Process \<Rightarrow> Process \<Rightarrow> cint" where
  "compare_by_cpu a b = ps_cpu_roc b - ps_cpu_roc a"

definition compare_by_mem :: "Process \<Rightarrow> Process \<Rightarrow> cint" where
  "compare_by_mem a b = ps_mem_roc b - ps_mem_roc a"

definition compare_by_io :: "Process \<Rightarrow> Process \<Rightarrow> cint" where
  "compare_by_io a b = ps_io_roc b - ps_io_roc a"

text \<open>
  A line of the stats file as \<open>sscanf\<close> reads it: the seven numbers, or \<open>None\<close> when
  fewer than seven fields match.
\<close>

type_synonym stats_line = "(int \<times> cint \<times> cint \<times> cint \<times> cint \<times> cint \<times> cint) option"

definition parse_process :: "int \<times> cint \<times> cint \<times> cint \<times> cint \<times> cint \<times> cint \<Rightarrow> Process" where
  "parse_process l = (case l of (pid, ce, me, ie, cr, mr, ir) \<Rightarrow>
     \<lparr>ps_pid = pid, ps_cpu_ema = ce, ps_mem_ema = me, ps_io_ema = ie,
      ps_cpu_roc = cr, ps_mem_roc = mr, ps_io_roc = ir,
      score = c_abs cr + c_abs mr + c_abs ir\<rparr>)"

fun read_loop :: "stats_line list \<Rightarrow> Process list \<Rightarrow> Process list" where
  "read_loop [] procs = procs"
| "read_loop (l # ls) procs =
     (if length procs < MAX_PROCS then
        (case l of
           None \<Rightarrow> read_loop ls procs
         | Some fs \<Rightarrow> read_loop ls (procs @ [parse_process fs]))
      else procs)"

text \<open>The first four lines of the file are headers.\<close>

definition read_stats :: "stats_line list \<Rightarrow> Process list" where
  "read_stats file_lines = read_loop (drop 4 file_lines) []"

text \<open>The two \<open>if\<close> statements applied to the argument of \<open>-n\<close>.\<close>

definition clamp_top_n :: "int \<Rightarrow> int" where
  "clamp_top_n n = (let n1 = (if n < 1 then 1 else n) in if n1 > 100 then 100 else n1)"

definition print_results :: "int \<Rightarrow> Process list \<Rightarrow> Process list" where
  "print_results top_n procs = take (nat top_n) procs"

fun comparator :: "nat \<Rightarrow> Process \<Rightarrow> Process \<Rightarrow> cint" where
  "comparator sort_mode =
     (if sort_mode = 1 then compare_by_cpu
      else if sort_mode = 2 then compare_by_mem
      else if sort_mode = 3 then compare_by_io
      else compare_by_score)"

text \<open>The value of \<open>top_n\<close> after the options are read: 10 unless \<open>-n\<close> is given.\<close>

definition effective_top_n :: "int option \<Rightarrow> int" where
  "effective_top_n n_opt = (case n_opt of None \<Rightarrow> 10 | Some n \<Rightarrow> clamp_top_n n)"

text \<open>
  \<open>qsort\<close> belongs to the C library, not to this program: \<open>main\<close> takes it as a parameter.
  \<open>n_opt\<close> is the argument of \<open>-n\<close>, if given. The result is the rows that
  \<open>print_results\<close> prints, in order.
\<close>

definition top_spikes_main ::
  "((Process \<Rightarrow> Process \<Rightarrow> cint) \<Rightarrow> Process list \<Rightarrow> Process list) \<Rightarrow>
     int option \<Rightarrow> nat \<Rightarrow> stats_line list \<Rightarrow> Process list" where
  "top_spikes_main qsort n_opt sort_mode file_lines =
     (let top_n = effective_top_n n_opt;
          procs = read_stats file_lines
      in print_results top_n (qsort (comparator sort_mode) procs))"

text \<open>
  What the C standard promises of \<open>qsort\<close>: the array holds the same elements, and an
  element never stands before one that compares smaller.
\<close>

definition qsort_contract ::
  "(Process \<Rightarrow> Process \<Rightarrow> cint) \<Rightarrow> Process list \<Rightarrow> Process list \<Rightarrow> bool" where
  "qsort_contract cmp xs ys = (mset ys = mset xs \<and> sorted_wrt (\<lambda>a b. cmp a b \<le>s 0) ys)"

text \<open>One sorting routine that keeps this promise: insertion sort.\<close>

fun insert_by :: "(Process \<Rightarrow> Process \<Rightarrow> cint) \<Rightarrow> Process \<Rightarrow> Process list \<Rightarrow> Process list" where
  "insert_by cmp x [] = [x]"
| "insert_by cmp x (y # ys) = (if cmp x y \<le>s 0 then x # y # ys else y # insert_by cmp x ys)"

fun isort_by :: "(Process \<Rightarrow> Process \<Rightarrow> cint) \<Rightarrow> Process list \<Rightarrow> Process list" where
  "isort_by cmp [] = []"
| "isort_by cmp (x # xs) = insert_by cmp x (isort_by cmp xs)"

text \<open>Example value: a stats file with four header lines and four processes.\<close>

definition stats_example :: "stats_line list" where
  "stats_example =
     [None, None, None, None,
      Some (11, 500, 10, 0, 10, 0, 0),
      Some (12, 9400, 800, 30, 6000, 2500, 500),
      Some (13, 700, 10, 0, - 50, 0, 0),
      Some (14, 900, 40, 10, 100, - 60, 40)]"

section \<open>Properties of the predictor\<close>

subsection \<open>Truncating division by 100\<close>

lemma sdiv100_nonneg: "0 \<le> a \<Longrightarrow> a sdiv (100::int) = a div 100"
  by (cases "a = 0") (simp_all add: signed_divide_int_def)

lemma sdiv100_neg: "a < 0 \<Longrightarrow> a sdiv (100::int) = - ((- a) div 100)"
  by (simp add: signed_divide_int_def)

lemma sdiv100_lower: "100 * k \<le> a \<Longrightarrow> k \<le> a sdiv (100::int)"
proof (cases "0 \<le> a")
  case True
  assume "100 * k \<le> a"
  then have "k \<le> a div 100" by linarith
  with True show ?thesis by (simp add: sdiv100_nonneg)
next
  case False
  assume "100 * k \<le> a"
  then have "(- a) div 100 \<le> - k" by linarith
  with False show ?thesis by (simp add: sdiv100_neg)
qed

lemma sdiv100_upper: "a \<le> 100 * k \<Longrightarrow> a sdiv (100::int) \<le> k"
proof (cases "0 \<le> a")
  case True
  assume "a \<le> 100 * k"
  then have "a div 100 \<le> k" by linarith
  with True show ?thesis by (simp add: sdiv100_nonneg)
next
  case False
  assume "a \<le> 100 * k"
  then have "- k \<le> (- a) div 100" by linarith
  with False show ?thesis by (simp add: sdiv100_neg)
qed

subsection \<open>Reading the word arithmetic as integers\<close>

lemma sint_in_range:
  "- (2^31) \<le> x \<Longrightarrow> x < 2^31 \<Longrightarrow> sint (word_of_int x :: cint) = x"
  by (simp add: sint_sbintrunc' signed_take_bit_int_eq_self)

lemma sint_c_div100: "sint (c_div a 100) = sint a sdiv 100"
proof -
  have r: "- (2^31) \<le> sint a" "sint a < 2^31"
    using sint_ge [of a] sint_lt [of a] by simp_all
  have "- (2^31) \<le> sint a sdiv 100" "sint a sdiv 100 < 2^31"
    using sdiv100_lower [of "- (2^31)" "sint a"] sdiv100_upper [of "sint a" "2^31 - 1"] r
    by simp_all
  then show ?thesis
    by (simp add: c_div_def sint_in_range)
qed

lemma sint_weighted_sum:
  fixes s e :: cint
  assumes "- (2^31) \<le> 30 * sint s + 70 * sint e" "30 * sint s + 70 * sint e < 2^31"
  shows "sint (30 * s + 70 * e) = 30 * sint s + 70 * sint e"
proof -
  have "30 * s + 70 * e = (word_of_int (30 * sint s + 70 * sint e) :: cint)"
    by simp
  then show ?thesis using assms by (simp only: sint_in_range)
qed

lemma update_ema_sint:
  fixes s e :: cint
  assumes "- (2^31) \<le> 30 * sint s + 70 * sint e" "30 * sint s + 70 * sint e < 2^31"
  shows "sint (update_ema e s) = (30 * sint s + 70 * sint e) sdiv 100"
  using assms
  by (simp add: update_ema_def ALPHA_def ALPHA_COMPLEMENT_def sint_c_div100 sint_weighted_sum)

subsection \<open>What one update stores\<close>

lemma flag_values:
  "FLAG_CPU_SPIKE_PREDICTED = 1" "FLAG_MEM_SPIKE_PREDICTED = 2" "FLAG_IO_SPIKE_PREDICTED = 4"
  "FLAG_ACTIVE = 128"
  by (simp_all add: FLAG_CPU_SPIKE_PREDICTED_def FLAG_MEM_SPIKE_PREDICTED_def
      FLAG_IO_SPIKE_PREDICTED_def FLAG_ACTIVE_def)

lemma store_ema_fields:
  "cpu_ema (store_ema sig c m i) = update_ema (cpu_ema sig) c"
  "mem_ema (store_ema sig c m i) = update_ema (mem_ema sig) m"
  "io_ema (store_ema sig c m i) = update_ema (io_ema sig) i"
  "cpu_prev (store_ema sig c m i) = cpu_ema sig"
  "mem_prev (store_ema sig c m i) = mem_ema sig"
  "io_prev (store_ema sig c m i) = io_ema sig"
  "cpu_roc (store_ema sig c m i) = update_ema (cpu_ema sig) c - cpu_ema sig"
  "mem_roc (store_ema sig c m i) = update_ema (mem_ema sig) m - mem_ema sig"
  "io_roc (store_ema sig c m i) = update_ema (io_ema sig) i - io_ema sig"
  "flags (store_ema sig c m i) = flags sig"
  "sig_pid (store_ema sig c m i) = sig_pid sig"
  by (simp_all add: store_ema_def calc_rate_of_change_def Let_def)

lemma update_signature_fields:
  "cpu_ema (fst (update_signature j sig c m i tp)) = update_ema (cpu_ema sig) c"
  "mem_ema (fst (update_signature j sig c m i tp)) = update_ema (mem_ema sig) m"
  "io_ema (fst (update_signature j sig c m i tp)) = update_ema (io_ema sig) i"
  "cpu_prev (fst (update_signature j sig c m i tp)) = cpu_ema sig"
  "mem_prev (fst (update_signature j sig c m i tp)) = mem_ema sig"
  "io_prev (fst (update_signature j sig c m i tp)) = io_ema sig"
  "cpu_roc (fst (update_signature j sig c m i tp)) = update_ema (cpu_ema sig) c - cpu_ema sig"
  "mem_roc (fst (update_signature j sig c m i tp)) = update_ema (mem_ema sig) m - mem_ema sig"
  "io_roc (fst (update_signature j sig c m i tp)) = update_ema (io_ema sig) i - io_ema sig"
  "sig_pid (fst (update_signature j sig c m i tp)) = sig_pid sig"
  by (simp_all add: update_signature_def mark_cpu_def mark_mem_def mark_io_def clear_flags_def
      store_ema_fields split: prod.splits if_splits)

lemma update_signature_flags:
  "flags (fst (update_signature j sig c m i tp)) =
     (((flags sig AND NOT (1 OR 2 OR 4))
        OR (if 2000 <s update_ema (cpu_ema sig) c - cpu_ema sig then 1 else 0))
        OR (if 1500 <s update_ema (mem_ema sig) m - mem_ema sig then 2 else 0))
        OR (if 1000 <s update_ema (io_ema sig) i - io_ema sig then 4 else 0)"
  by (simp add: update_signature_def mark_cpu_def mark_mem_def mark_io_def clear_flags_def
      store_ema_fields flag_values is_spike_predicted_def CPU_SPIKE_THRESHOLD_def
      MEM_SPIKE_THRESHOLD_def IO_SPIKE_THRESHOLD_def)

lemma flag_bit_cpu:
  fixes f :: uint
  shows "((((f AND NOT (1 OR 2 OR 4)) OR (if a then 1 else 0)) OR (if b then 2 else 0))
            OR (if c then 4 else 0)) AND 1 \<noteq> 0 \<longleftrightarrow> a"
  by (simp add: bit.conj_disj_distrib2 and.assoc)

lemma flag_bit_mem:
  fixes f :: uint
  shows "((((f AND NOT (1 OR 2 OR 4)) OR (if a then 1 else 0)) OR (if b then 2 else 0))
            OR (if c then 4 else 0)) AND 2 \<noteq> 0 \<longleftrightarrow> b"
  by (simp add: bit.conj_disj_distrib2 and.assoc)

lemma flag_bit_io:
  fixes f :: uint
  shows "((((f AND NOT (1 OR 2 OR 4)) OR (if a then 1 else 0)) OR (if b then 2 else 0))
            OR (if c then 4 else 0)) AND 4 \<noteq> 0 \<longleftrightarrow> c"
  by (simp add: bit.conj_disj_distrib2 and.assoc)

lemma cpu_flag_after_update:
  "(flags (fst (update_signature j sig c m i tp)) AND FLAG_CPU_SPIKE_PREDICTED \<noteq> 0)
      = (2000 <s cpu_roc (fst (update_signature j sig c m i tp)))"
  unfolding update_signature_flags update_signature_fields flag_values
  by (simp only: flag_bit_cpu)

lemma mem_flag_after_update:
  "(flags (fst (update_signature j sig c m i tp)) AND FLAG_MEM_SPIKE_PREDICTED \<noteq> 0)
      = (1500 <s mem_roc (fst (update_signature j sig c m i tp)))"
  unfolding update_signature_flags update_signature_fields flag_values
  by (simp only: flag_bit_mem)

lemma io_flag_after_update:
  "(flags (fst (update_signature j sig c m i tp)) AND FLAG_IO_SPIKE_PREDICTED \<noteq> 0)
      = (1000 <s io_roc (fst (update_signature j sig c m i tp)))"
  unfolding update_signature_flags update_signature_fields flag_values
  by (simp only: flag_bit_io)


text \<open>Within the range, the stored rate of change is the difference of the integers.\<close>

lemma update_roc_sint:
  fixes s e :: cint
  assumes "- (2^31) \<le> 30 * sint s + 70 * sint e" "30 * sint s + 70 * sint e < 2^31"
  shows "sint (update_ema e s - e) = sint (update_ema e s) - sint e"
proof -
  have s: "- (2^31) \<le> sint s" "sint s < 2^31"
    using sint_ge [of s] sint_lt [of s] by simp_all
  have n: "sint (update_ema e s) = (30 * sint s + 70 * sint e) sdiv 100"
    by (rule update_ema_sint [OF assms])
  have lo: "- 21474837 \<le> sint (update_ema e s)"
    unfolding n using assms(1) by (intro sdiv100_lower) simp
  have hi: "sint (update_ema e s) \<le> 21474837"
    unfolding n using assms(2) by (intro sdiv100_upper) simp
  from assms s have "- (2^31) \<le> sint (update_ema e s) - sint e" "sint (update_ema e s) - sint e < 2^31"
    using lo hi by simp_all
  then show ?thesis
    by (simp add: sint_word_diff signed_take_bit_int_eq_self)
qed




subsection \<open>Repeated identical samples\<close>

lemma update_ema_small:
  assumes "ema_in_range e" "ema_in_range s"
  shows "sint (update_ema e s) = (30 * sint s + 70 * sint e) sdiv 100"
  using assms by (intro update_ema_sint) (simp_all add: ema_in_range_def)

lemma update_ema_up:
  assumes "ema_in_range e" "ema_in_range s" "sint e \<le> sint s"
  shows "sint e \<le> sint (update_ema e s)" "sint (update_ema e s) \<le> sint s"
  using assms sdiv100_lower [of "sint e" "30 * sint s + 70 * sint e"]
    sdiv100_upper [of "30 * sint s + 70 * sint e" "sint s"]
  by (simp_all add: update_ema_small)

lemma update_ema_down:
  assumes "ema_in_range e" "ema_in_range s" "sint s \<le> sint e"
  shows "sint (update_ema e s) \<le> sint e" "sint s \<le> sint (update_ema e s)"
  using assms sdiv100_upper [of "30 * sint s + 70 * sint e" "sint e"]
    sdiv100_lower [of "sint s" "30 * sint s + 70 * sint e"]
  by (simp_all add: update_ema_small)

lemma update_ema_in_range:
  assumes "ema_in_range e" "ema_in_range s"
  shows "ema_in_range (update_ema e s)"
proof (cases "sint e \<le> sint s")
  case True
  from update_ema_up [OF assms True] assms show ?thesis
    by (simp add: ema_in_range_def)
next
  case False
  then have "sint s \<le> sint e" by simp
  from update_ema_down [OF assms this] assms show ?thesis
    by (simp add: ema_in_range_def)
qed

lemma ema_iter_in_range:
  "ema_in_range e \<Longrightarrow> ema_in_range s \<Longrightarrow> ema_in_range (ema_iter n e s)"
  by (induction n) (simp_all add: update_ema_in_range)

lemma ema_iter_below:
  assumes "ema_in_range e" "ema_in_range s" "sint e \<le> sint s"
  shows "sint (ema_iter n e s) \<le> sint s"
  using assms by (induction n) (simp_all add: update_ema_up ema_iter_in_range)

lemma ema_iter_above:
  assumes "ema_in_range e" "ema_in_range s" "sint s \<le> sint e"
  shows "sint s \<le> sint (ema_iter n e s)"
  using assms by (induction n) (simp_all add: update_ema_down ema_iter_in_range)

lemma ema_iter_shift: "ema_iter (Suc n) e s = ema_iter n (update_ema e s) s"
  by (induction n) simp_all

lemma ema_iter_fixed: "update_ema e s = e \<Longrightarrow> ema_iter n e s = e"
  by (induction n) simp_all

text \<open>Each update that changes the EMA brings it closer to the sample, so the changes end.\<close>

lemma ema_settles:
  assumes "ema_in_range e" "ema_in_range s"
  shows "\<exists>N. \<forall>n\<ge>N. ema_iter (Suc n) e s = ema_iter n e s"
  using assms
proof (induction "nat \<bar>sint s - sint e\<bar>" arbitrary: e rule: less_induct)
  case less
  show ?case
  proof (cases "update_ema e s = e")
    case True
    then have "\<forall>n\<ge>0. ema_iter (Suc n) e s = ema_iter n e s"
      by (simp add: ema_iter_fixed)
    then show ?thesis by blast
  next
    case False
    then have ne: "sint (update_ema e s) \<noteq> sint e"
      by (auto dest: signed_word_eqI)
    have closer: "nat \<bar>sint s - sint (update_ema e s)\<bar> < nat \<bar>sint s - sint e\<bar>"
    proof (cases "sint e \<le> sint s")
      case True
      from update_ema_up [OF less.prems True] ne show ?thesis by linarith
    next
      case False
      then have "sint s \<le> sint e" by simp
      from update_ema_down [OF less.prems this] ne show ?thesis by linarith
    qed
    from less.hyps [OF closer update_ema_in_range [OF less.prems] less.prems(2)]
    obtain N where N: "\<forall>n\<ge>N. ema_iter (Suc n) (update_ema e s) s = ema_iter n (update_ema e s) s"
      by blast
    have "\<forall>n\<ge>Suc N. ema_iter (Suc n) e s = ema_iter n e s"
    proof (intro allI impI)
      fix n assume "Suc N \<le> n"
      then obtain k where k: "n = Suc k" "N \<le> k" by (cases n) auto
      with N have "ema_iter (Suc k) (update_ema e s) s = ema_iter k (update_ema e s) s" by blast
      then show "ema_iter (Suc n) e s = ema_iter n e s"
        unfolding k(1) by (simp only: ema_iter_shift)
    qed
    then show ?thesis by blast
  qed
qed

text \<open>
  C9, as the claim states it, fails: with a starting EMA of 0 and a sample of 100000000 the
  product \<open>30 * sample\<close> leaves the range of \<open>int\<close>, and the first update moves the EMA
  below 0, away from the sample.
\<close>

theorem ema_monotone_counterexample:
  "(0::cint) \<le>s 100000000 \<and> sint (update_ema 0 100000000) = - 12949672 \<and>
   update_ema 0 100000000 <s 0"
  by (simp add: update_ema_def c_div_def ALPHA_def ALPHA_COMPLEMENT_def signed_divide_int_def
      word_sle_eq word_sless_alt)

text \<open>
  C9, amended. When the starting EMA and the sample lie between -21474836 and 21474836
  (so that the weighted sum fits an \<open>int\<close>), repeated updates with the same sample move the
  EMA monotonically towards the sample and never past it, and from some update on the EMA
  no longer changes, that is, the rate of change is 0.
\<close>

theorem ema_converges_in_range:
  assumes "ema_in_range e" and "ema_in_range s"
  shows "(e \<le>s s \<longrightarrow>
            (\<forall>n. ema_iter n e s \<le>s ema_iter (Suc n) e s \<and> ema_iter (Suc n) e s \<le>s s)) \<and>
         (s \<le>s e \<longrightarrow>
            (\<forall>n. ema_iter (Suc n) e s \<le>s ema_iter n e s \<and> s \<le>s ema_iter (Suc n) e s)) \<and>
         (\<exists>N. \<forall>n\<ge>N. calc_rate_of_change (ema_iter (Suc n) e s) (ema_iter n e s) = 0)"
proof (intro conjI impI allI)
  fix n assume le: "e \<le>s s"
  then have "sint e \<le> sint s" by (simp add: word_sle_eq)
  from ema_iter_below [OF assms this, of n] ema_iter_in_range [OF assms, of n]
  have "sint (ema_iter n e s) \<le> sint s" "ema_in_range (ema_iter n e s)" by simp_all
  from update_ema_up [OF this(2) assms(2) this(1)]
  show "ema_iter n e s \<le>s ema_iter (Suc n) e s" "ema_iter (Suc n) e s \<le>s s"
    by (simp_all add: word_sle_eq)
next
  fix n assume ge: "s \<le>s e"
  then have "sint s \<le> sint e" by (simp add: word_sle_eq)
  from ema_iter_above [OF assms this, of n] ema_iter_in_range [OF assms, of n]
  have "sint s \<le> sint (ema_iter n e s)" "ema_in_range (ema_iter n e s)" by simp_all
  from update_ema_down [OF this(2) assms(2) this(1)]
  show "ema_iter (Suc n) e s \<le>s ema_iter n e s" "s \<le>s ema_iter (Suc n) e s"
    by (simp_all add: word_sle_eq)
next
  from ema_settles [OF assms]
  show "\<exists>N. \<forall>n\<ge>N. calc_rate_of_change (ema_iter (Suc n) e s) (ema_iter n e s) = 0"
    by (simp add: calc_rate_of_change_def)
qed

theorem ema_converges_in_range_witness:
  "ema_in_range 0 \<and> ema_in_range 8000 \<and> (0::cint) \<le>s 8000 \<and>
   (\<forall>n. ema_iter n 0 8000 \<le>s ema_iter (Suc n) 0 8000 \<and> ema_iter (Suc n) 0 8000 \<le>s 8000) \<and>
   (\<exists>N. \<forall>n\<ge>N. calc_rate_of_change (ema_iter (Suc n) 0 8000) (ema_iter n 0 8000) = 0)"
proof -
  have r0: "ema_in_range 0" and r1: "ema_in_range 8000"
    by (simp_all add: ema_in_range_def)
  have le: "(0::cint) \<le>s 8000"
    by (simp add: word_sle_eq)
  from ema_converges_in_range [OF r0 r1] le r0 r1 show ?thesis
    by blast
qed

section \<open>Properties of the signature store\<close>

lemma find_signature_Some:
  "find_signature xs pid = Some i \<Longrightarrow> i < length xs \<and> sig_pid (xs ! i) = pid"
  by (induction xs arbitrary: i) (auto split: if_splits)

lemma find_signature_None: "find_signature xs pid = None \<longleftrightarrow> pid \<notin> sig_pid ` set xs"
  by (induction xs) auto

lemma get_or_create_found:
  "find_signature (proc_signatures st) pid = Some i \<Longrightarrow>
     get_or_create_signature a j pid comm_arg st = (Some i, st)"
  by (simp add: get_or_create_signature_def)

lemma get_or_create_new:
  "find_signature (proc_signatures st) pid = None \<Longrightarrow> total_tracked st < MAX_TRACKED_PROCS \<Longrightarrow> a \<Longrightarrow>
     get_or_create_signature a j pid comm_arg st =
       (Some 0, st\<lparr>proc_signatures := new_signature j pid comm_arg # proc_signatures st,
                   total_tracked := total_tracked st + 1\<rparr>)"
  by (simp add: get_or_create_signature_def)

lemma get_or_create_full:
  "find_signature (proc_signatures st) pid = None \<Longrightarrow> MAX_TRACKED_PROCS \<le> total_tracked st \<Longrightarrow>
     get_or_create_signature a j pid comm_arg st = (None, st)"
  by (simp add: get_or_create_signature_def)

lemma get_or_create_no_memory:
  "find_signature (proc_signatures st) pid = None \<Longrightarrow> \<not> a \<Longrightarrow>
     get_or_create_signature a j pid comm_arg st = (None, st)"
  by (simp add: get_or_create_signature_def)

text \<open>
  Filling a store whose counter agrees with its size: of the new pids, as many as there is
  room for get a signature, and every other call fails.
\<close>

lemma insert_all_count:
  assumes "distinct pids" and "set pids \<inter> store_pids st = {}"
    and "total_tracked st = int (length (proc_signatures st))"
    and "length (proc_signatures st) \<le> 4096"
  shows "fst (insert_all True j pids st) = length pids - (4096 - length (proc_signatures st)) \<and>
         length (proc_signatures (snd (insert_all True j pids st)))
           = min 4096 (length (proc_signatures st) + length pids) \<and>
         total_tracked (snd (insert_all True j pids st))
           = int (length (proc_signatures (snd (insert_all True j pids st)))) \<and>
         total_predictions (snd (insert_all True j pids st)) = total_predictions st"
  using assms
proof (induction pids arbitrary: st)
  case Nil
  then show ?case by simp
next
  case (Cons pid pids)
  from Cons.prems(2) have none: "find_signature (proc_signatures st) pid = None"
    by (auto simp: find_signature_None store_pids_def)
  show ?case
  proof (cases "length (proc_signatures st) < 4096")
    case True
    let ?st1 = "st\<lparr>proc_signatures := new_signature j pid ''proc'' # proc_signatures st,
                    total_tracked := total_tracked st + 1\<rparr>"
    from True Cons.prems(3) have "total_tracked st < MAX_TRACKED_PROCS"
      by (simp add: MAX_TRACKED_PROCS_def)
    from get_or_create_new [OF none this, of True j "''proc''"]
    have step: "get_or_create_signature True j pid ''proc'' st = (Some 0, ?st1)" by simp
    have "set pids \<inter> store_pids ?st1 = {}"
      using Cons.prems(1,2) by (auto simp: store_pids_def new_signature_def)
    moreover have "total_tracked ?st1 = int (length (proc_signatures ?st1))"
      using Cons.prems(3) by simp
    moreover have "length (proc_signatures ?st1) \<le> 4096"
      using True by simp
    moreover have "distinct pids" using Cons.prems(1) by simp
    ultimately have IH: "fst (insert_all True j pids ?st1) = length pids - (4096 - length (proc_signatures ?st1)) \<and>
         length (proc_signatures (snd (insert_all True j pids ?st1)))
           = min 4096 (length (proc_signatures ?st1) + length pids) \<and>
         total_tracked (snd (insert_all True j pids ?st1))
           = int (length (proc_signatures (snd (insert_all True j pids ?st1)))) \<and>
         total_predictions (snd (insert_all True j pids ?st1)) = total_predictions ?st1"
      by (intro Cons.IH)
    have "insert_all True j (pid # pids) st = insert_all True j pids ?st1"
      by (simp add: step)
    with IH True show ?thesis by auto
  next
    case False
    with Cons.prems(4) have len: "length (proc_signatures st) = 4096" by simp
    with Cons.prems(3) have "MAX_TRACKED_PROCS \<le> total_tracked st"
      by (simp add: MAX_TRACKED_PROCS_def)
    from get_or_create_full [OF none this, of True j "''proc''"]
    have step: "get_or_create_signature True j pid ''proc'' st = (None, st)" by simp
    have "set pids \<inter> store_pids st = {}" "distinct pids"
      using Cons.prems(1,2) by auto
    from Cons.IH [OF this(2) this(1) Cons.prems(3,4)]
    have IH: "fst (insert_all True j pids st) = length pids - (4096 - length (proc_signatures st)) \<and>
         length (proc_signatures (snd (insert_all True j pids st)))
           = min 4096 (length (proc_signatures st) + length pids) \<and>
         total_tracked (snd (insert_all True j pids st))
           = int (length (proc_signatures (snd (insert_all True j pids st)))) \<and>
         total_predictions (snd (insert_all True j pids st)) = total_predictions st" .
    have "insert_all True j (pid # pids) st
            = (Suc (fst (insert_all True j pids st)), snd (insert_all True j pids st))"
      by (simp add: step split: prod.splits)
    with IH len show ?thesis by simp
  qed
qed

lemma full_store_facts:
  "total_tracked full_store = MAX_TRACKED_PROCS"
  "length (proc_signatures full_store) = 4096"
  "find_signature (proc_signatures full_store) 5000 = None"
  by (auto simp: full_store_def MAX_TRACKED_PROCS_def find_signature_None new_signature_def)

lemma full_store_first: "find_signature (proc_signatures full_store) 0 = Some 0"
proof -
  have "[0..<4096] = 0 # [Suc 0..<4096]"
    by (rule upt_conv_Cons) simp
  then have "proc_signatures full_store =
      new_signature 0 0 ''proc'' # map (\<lambda>k. new_signature 0 (int k) ''proc'') [Suc 0..<4096]"
    by (simp add: full_store_def)
  then show ?thesis
    by (simp add: new_signature_def)
qed

text \<open>
  C7, as the claim states it, fails in one point: when the store is full, the call returns
  \<open>NULL\<close> and leaves the whole state as it was. No counter moves: \<open>total_tracked\<close> and
  \<open>total_predictions\<close>, the only counters of the module, keep their values. (The call also
  returns \<open>NULL\<close>, with room left, when the allocation fails.)
\<close>

theorem capacity_counter_counterexample:
  "total_tracked full_store = MAX_TRACKED_PROCS \<and>
   get_or_create_signature True 1 5000 ''late'' full_store = (None, full_store) \<and>
   total_tracked (snd (get_or_create_signature True 1 5000 ''late'' full_store))
     = total_tracked full_store \<and>
   total_predictions (snd (get_or_create_signature True 1 5000 ''late'' full_store))
     = total_predictions full_store \<and>
   get_or_create_signature False 1 7 ''first'' kstate_init = (None, kstate_init)"
  by (simp add: full_store_facts get_or_create_full get_or_create_no_memory kstate_init_def)

text \<open>
  C7, amended. \<open>get_or_create_signature\<close> returns the existing entry when the pid is
  present. Otherwise, when fewer than 4096 signatures are counted and the allocation
  succeeds, it inserts a new entry with all measurements zero and counts it; when 4096 are
  counted it returns \<open>NULL\<close> and changes nothing: no entry is evicted and no counter moves.
  So 4097 distinct pids offered to the empty store leave exactly 4096 signatures and
  exactly one failed call.
\<close>

theorem get_or_create_capacity:
  "(find_signature (proc_signatures st) pid = Some i
      \<longrightarrow> get_or_create_signature a j pid comm_arg st = (Some i, st)) \<and>
   (find_signature (proc_signatures st) pid = None \<and> total_tracked st < MAX_TRACKED_PROCS \<and> a
      \<longrightarrow> get_or_create_signature a j pid comm_arg st =
            (Some 0, st\<lparr>proc_signatures := new_signature j pid comm_arg # proc_signatures st,
                        total_tracked := total_tracked st + 1\<rparr>) \<and>
          cpu_ema (new_signature j pid comm_arg) = 0 \<and> mem_ema (new_signature j pid comm_arg) = 0 \<and>
          io_ema (new_signature j pid comm_arg) = 0 \<and> cpu_roc (new_signature j pid comm_arg) = 0 \<and>
          mem_roc (new_signature j pid comm_arg) = 0 \<and> io_roc (new_signature j pid comm_arg) = 0 \<and>
          total_samples (new_signature j pid comm_arg) = 0 \<and>
          sig_pid (new_signature j pid comm_arg) = pid) \<and>
   (find_signature (proc_signatures st) pid = None \<and> MAX_TRACKED_PROCS \<le> total_tracked st
      \<longrightarrow> get_or_create_signature a j pid comm_arg st = (None, st)) \<and>
   (distinct pids \<and> int (length pids) = MAX_TRACKED_PROCS + 1
      \<longrightarrow> fst (insert_all True j pids kstate_init) = 1 \<and>
          int (length (proc_signatures (snd (insert_all True j pids kstate_init)))) = MAX_TRACKED_PROCS \<and>
          total_tracked (snd (insert_all True j pids kstate_init)) = MAX_TRACKED_PROCS)"
proof (intro conjI impI)
  assume a: "distinct pids \<and> int (length pids) = MAX_TRACKED_PROCS + 1"
  then have len: "length pids = 4097" by (simp add: MAX_TRACKED_PROCS_def)
  from a have "distinct pids" by simp
  from insert_all_count [OF this, of kstate_init j] len
  have r: "fst (insert_all True j pids kstate_init) = 1 \<and>
           length (proc_signatures (snd (insert_all True j pids kstate_init))) = 4096 \<and>
           total_tracked (snd (insert_all True j pids kstate_init))
             = int (length (proc_signatures (snd (insert_all True j pids kstate_init))))"
    by (simp add: kstate_init_def store_pids_def)
  from r show "fst (insert_all True j pids kstate_init) = 1" by simp
  from r show "int (length (proc_signatures (snd (insert_all True j pids kstate_init)))) = MAX_TRACKED_PROCS"
    by (simp add: MAX_TRACKED_PROCS_def)
  from r show "total_tracked (snd (insert_all True j pids kstate_init)) = MAX_TRACKED_PROCS"
    by (simp add: MAX_TRACKED_PROCS_def)
qed (simp_all add: get_or_create_found get_or_create_new get_or_create_full new_signature_def)

theorem get_or_create_capacity_witness:
  "get_or_create_signature True 1 0 ''proc'' full_store = (Some 0, full_store) \<and>
   get_or_create_signature True 1 5000 ''late'' full_store = (None, full_store) \<and>
   get_or_create_signature True 1 7 ''first'' kstate_init
     = (Some 0, kstate_init\<lparr>proc_signatures := [new_signature 1 7 ''first''], total_tracked := 1\<rparr>) \<and>
   fst (insert_all True 1 (map int [0..<4097]) kstate_init) = 1 \<and>
   int (length (proc_signatures (snd (insert_all True 1 (map int [0..<4097]) kstate_init))))
     = MAX_TRACKED_PROCS"
proof -
  have d: "distinct (map int [0..<4097])" "int (length (map int [0..<4097])) = MAX_TRACKED_PROCS + 1"
    by (simp_all add: distinct_map MAX_TRACKED_PROCS_def)
  have e: "find_signature (proc_signatures kstate_init) 7 = None"
    "total_tracked kstate_init < MAX_TRACKED_PROCS" "total_tracked kstate_init + 1 = 1"
    "proc_signatures kstate_init = []"
    by (simp_all add: kstate_init_def MAX_TRACKED_PROCS_def)
  from get_or_create_capacity [of full_store 0 0 True 1 "''proc''" "map int [0..<4097]"]
    get_or_create_capacity [of full_store 5000 _ True 1 "''late''" "map int [0..<4097]"]
    get_or_create_capacity [of kstate_init 7 _ True 1 "''first''" "map int [0..<4097]"]
    full_store_facts full_store_first d e
  show ?thesis by simp
qed

subsection \<open>The sampling tick and the set of signatures\<close>

lemma store_pids_update:
  "i < length (proc_signatures st) \<Longrightarrow> sig_pid s = sig_pid (proc_signatures st ! i) \<Longrightarrow>
     store_pids (st\<lparr>proc_signatures := (proc_signatures st)[i := s], total_predictions := tp\<rparr>)
       = store_pids st"
proof -
  assume "i < length (proc_signatures st)" "sig_pid s = sig_pid (proc_signatures st ! i)"
  then have "map sig_pid ((proc_signatures st)[i := s]) = map sig_pid (proc_signatures st)"
    by (simp add: list_eq_iff_nth_eq nth_list_update)
  then have "set (map sig_pid ((proc_signatures st)[i := s])) = set (map sig_pid (proc_signatures st))"
    by simp
  then show ?thesis by (simp add: store_pids_def)
qed

lemma get_or_create_cases:
  obtains (found) i where "find_signature (proc_signatures st) pid = Some i"
      "get_or_create_signature a j pid comm_arg st = (Some i, st)"
  | (created) "find_signature (proc_signatures st) pid = None" "total_tracked st < MAX_TRACKED_PROCS" "a"
      "get_or_create_signature a j pid comm_arg st =
         (Some 0, st\<lparr>proc_signatures := new_signature j pid comm_arg # proc_signatures st,
                     total_tracked := total_tracked st + 1\<rparr>)"
  | (refused) "find_signature (proc_signatures st) pid = None" "MAX_TRACKED_PROCS \<le> total_tracked st \<or> \<not> a"
      "get_or_create_signature a j pid comm_arg st = (None, st)"
proof (cases "find_signature (proc_signatures st) pid")
  case (Some i)
  then show ?thesis by (intro found [of i]) (simp_all add: get_or_create_signature_def)
next
  case None
  show ?thesis
  proof (cases "total_tracked st < MAX_TRACKED_PROCS \<and> a")
    case True
    with None show ?thesis by (intro created) (simp_all add: get_or_create_signature_def)
  next
    case False
    with None show ?thesis by (intro refused) (auto simp: get_or_create_signature_def)
  qed
qed

text \<open>One task: its pid may be added, no pid is removed, the counter grows by at most 1.\<close>

lemma sample_task_pids:
  "store_pids st \<subseteq> store_pids (sample_task k j t st) \<and>
   store_pids (sample_task k j t st) \<subseteq> store_pids st \<union> sampled_pids [t] \<and>
   total_tracked (sample_task k j t st) \<le> total_tracked st + 1 \<and>
   (total_tracked st < MAX_TRACKED_PROCS \<and> k (t_pid t)
      \<longrightarrow> store_pids (sample_task k j t st) = store_pids st \<union> sampled_pids [t])"
proof (cases "t_kthread t \<or> t_exit_state t \<noteq> 0")
  case True
  then show ?thesis by (auto simp: sample_task_def sampled_pids_def)
next
  case False
  then have sp: "sampled_pids [t] = {t_pid t}" by (auto simp: sampled_pids_def)
  show ?thesis
  proof (cases rule: get_or_create_cases [of st "t_pid t" "k (t_pid t)" j "t_comm t"])
    case (found i)
    from find_signature_Some [OF found(1)]
    have i: "i < length (proc_signatures st)" "sig_pid (proc_signatures st ! i) = t_pid t" by simp_all
    from nth_mem [OF i(1)] i(2) have "t_pid t \<in> store_pids st"
      by (auto simp: store_pids_def intro: rev_image_eqI)
    moreover have "store_pids (sample_task k j t st) = store_pids st"
      using False i
      by (simp add: sample_task_def found(2) case_prod_beta store_pids_update
          update_signature_fields)
    moreover have "total_tracked (sample_task k j t st) = total_tracked st"
      using False by (simp add: sample_task_def found(2) case_prod_beta)
    ultimately show ?thesis by (auto simp: sp)
  next
    case created
    let ?st1 = "st\<lparr>proc_signatures := new_signature j (t_pid t) (t_comm t) # proc_signatures st,
                    total_tracked := total_tracked st + 1\<rparr>"
    have p1: "store_pids ?st1 = insert (t_pid t) (store_pids st)"
      by (simp add: store_pids_def new_signature_def)
    have "store_pids (sample_task k j t st) = store_pids ?st1"
      using False
      by (simp add: sample_task_def created(4) case_prod_beta store_pids_def
          update_signature_fields)
    moreover have "total_tracked (sample_task k j t st) = total_tracked st + 1"
      using False by (simp add: sample_task_def created(4) case_prod_beta)
    ultimately show ?thesis by (auto simp: sp p1)
  next
    case refused
    have "sample_task k j t st = st"
      using False by (simp add: sample_task_def refused(3))
    with refused(2) show ?thesis by (auto simp: sp)
  qed
qed

lemma sampled_pids_filter:
  "sampled_pids ts = set (map t_pid (filter (\<lambda>t. \<not> t_kthread t \<and> t_exit_state t = 0) ts))"
  by (auto simp: sampled_pids_def)

lemma sampled_pids_Cons: "sampled_pids (t # ts) = sampled_pids [t] \<union> sampled_pids ts"
  by (auto simp: sampled_pids_def)

lemma tick_pids_bounds:
  "store_pids st \<subseteq> store_pids (fold (sample_task k j) ts st) \<and>
   store_pids (fold (sample_task k j) ts st) \<subseteq> store_pids st \<union> sampled_pids ts"
proof (induction ts arbitrary: st)
  case Nil
  then show ?case by (simp add: sampled_pids_def)
next
  case (Cons t ts)
  from Cons.IH [of "sample_task k j t st"] sample_task_pids [of st k j t]
  show ?case by (auto simp: sampled_pids_Cons [of t ts])
qed

lemma tick_pids_room:
  assumes "total_tracked st + int (length ts) \<le> MAX_TRACKED_PROCS" and "\<And>pid. k pid"
  shows "store_pids (fold (sample_task k j) ts st) = store_pids st \<union> sampled_pids ts"
  using assms(1)
proof (induction ts arbitrary: st)
  case Nil
  then show ?case by (simp add: sampled_pids_def)
next
  case (Cons t ts)
  from Cons.prems have room: "total_tracked st < MAX_TRACKED_PROCS" by simp
  from sample_task_pids [of st k j t] room assms(2)
  have one: "store_pids (sample_task k j t st) = store_pids st \<union> sampled_pids [t]"
    and cnt: "total_tracked (sample_task k j t st) \<le> total_tracked st + 1"
    by simp_all
  from cnt Cons.prems have "total_tracked (sample_task k j t st) + int (length ts) \<le> MAX_TRACKED_PROCS"
    by simp
  from Cons.IH [OF this] one show ?case
    by (auto simp: sampled_pids_Cons [of t ts])
qed

text \<open>One task, exactly: which pids have a signature afterwards, and what the counter is.\<close>

lemma sample_task_exact:
  "store_pids (sample_task k j t st) =
     (if \<not> t_kthread t \<and> t_exit_state t = 0 \<and>
         (t_pid t \<in> store_pids st \<or> (total_tracked st < MAX_TRACKED_PROCS \<and> k (t_pid t)))
      then insert (t_pid t) (store_pids st) else store_pids st) \<and>
   total_tracked (sample_task k j t st) =
     (if \<not> t_kthread t \<and> t_exit_state t = 0 \<and> t_pid t \<notin> store_pids st \<and>
         total_tracked st < MAX_TRACKED_PROCS \<and> k (t_pid t)
      then total_tracked st + 1 else total_tracked st)"
proof (cases "t_kthread t \<or> t_exit_state t \<noteq> 0")
  case True
  then show ?thesis by (auto simp: sample_task_def)
next
  case False
  show ?thesis
  proof (cases rule: get_or_create_cases [of st "t_pid t" "k (t_pid t)" j "t_comm t"])
    case (found i)
    from find_signature_Some [OF found(1)]
    have i: "i < length (proc_signatures st)" "sig_pid (proc_signatures st ! i) = t_pid t" by simp_all
    from nth_mem [OF i(1)] i(2) have mem: "t_pid t \<in> store_pids st"
      by (auto simp: store_pids_def intro: rev_image_eqI)
    have "store_pids (sample_task k j t st) = store_pids st"
      using False i
      by (simp add: sample_task_def found(2) case_prod_beta store_pids_update
          update_signature_fields)
    moreover have "total_tracked (sample_task k j t st) = total_tracked st"
      using False by (simp add: sample_task_def found(2) case_prod_beta)
    ultimately show ?thesis using mem False by auto
  next
    case created
    let ?st1 = "st\<lparr>proc_signatures := new_signature j (t_pid t) (t_comm t) # proc_signatures st,
                    total_tracked := total_tracked st + 1\<rparr>"
    from created(1) have nmem: "t_pid t \<notin> store_pids st"
      by (simp add: find_signature_None store_pids_def)
    have p1: "store_pids ?st1 = insert (t_pid t) (store_pids st)"
      by (simp add: store_pids_def new_signature_def)
    have "store_pids (sample_task k j t st) = store_pids ?st1"
      using False
      by (simp add: sample_task_def created(4) case_prod_beta store_pids_def
          update_signature_fields)
    moreover have "total_tracked (sample_task k j t st) = total_tracked st + 1"
      using False by (simp add: sample_task_def created(4) case_prod_beta)
    ultimately show ?thesis using False created(2,3) nmem by (simp add: p1)
  next
    case refused
    from refused(1) have nmem: "t_pid t \<notin> store_pids st"
      by (simp add: find_signature_None store_pids_def)
    have "sample_task k j t st = st"
      using False by (simp add: sample_task_def refused(3))
    with refused(2) nmem show ?thesis by auto
  qed
qed

lemma tick_append:
  "sample_timer_callback k j (pre @ post) st
     = sample_timer_callback k j post (sample_timer_callback k j pre st)"
  by (simp add: sample_timer_callback_def)

lemma tick_Cons:
  "sample_timer_callback k j (t # ts) st = sample_timer_callback k j ts (sample_task k j t st)"
  by (simp add: sample_timer_callback_def)

lemma tick_keeps:
  "store_pids st \<subseteq> store_pids (sample_timer_callback k j ts st)"
  using tick_pids_bounds [of st k j ts] by (simp add: sample_timer_callback_def)

text \<open>A task reached while the store has room, or whose pid is already there, ends with a signature.\<close>

lemma tick_creates:
  assumes "tasks = pre @ t # post" and "\<not> t_kthread t" and "t_exit_state t = 0"
    and "t_pid t \<in> store_pids (sample_timer_callback k j pre st) \<or>
         (total_tracked (sample_timer_callback k j pre st) < MAX_TRACKED_PROCS \<and> k (t_pid t))"
  shows "t_pid t \<in> store_pids (sample_timer_callback k j tasks st)"
proof -
  let ?s = "sample_timer_callback k j pre st"
  have "t_pid t \<in> store_pids (sample_task k j t ?s)"
    using sample_task_exact [of k j t ?s] assms(2-4) by auto
  moreover have "sample_timer_callback k j tasks st
                   = sample_timer_callback k j post (sample_task k j t ?s)"
    unfolding assms(1) by (simp add: tick_append tick_Cons)
  ultimately show ?thesis
    using tick_keeps [of "sample_task k j t ?s" k j post] by auto
qed

text \<open>A new signature comes from a task that was reached while the store had room.\<close>

lemma tick_created_from:
  assumes "pid \<in> store_pids (sample_timer_callback k j tasks st)" and "pid \<notin> store_pids st"
  shows "\<exists>pre t post. tasks = pre @ t # post \<and> t_pid t = pid \<and> \<not> t_kthread t \<and>
           t_exit_state t = 0 \<and>
           total_tracked (sample_timer_callback k j pre st) < MAX_TRACKED_PROCS \<and> k pid"
  using assms
proof (induction tasks arbitrary: st)
  case Nil
  then show ?case by (simp add: sample_timer_callback_def)
next
  case (Cons t ts)
  let ?s1 = "sample_task k j t st"
  show ?case
  proof (cases "pid \<in> store_pids ?s1")
    case True
    with Cons.prems(2) sample_task_exact [of k j t st]
    have "t_pid t = pid \<and> \<not> t_kthread t \<and> t_exit_state t = 0 \<and>
          total_tracked st < MAX_TRACKED_PROCS \<and> k pid"
      by (auto split: if_splits)
    then have "t # ts = [] @ t # ts \<and> t_pid t = pid \<and> \<not> t_kthread t \<and> t_exit_state t = 0 \<and>
          total_tracked (sample_timer_callback k j [] st) < MAX_TRACKED_PROCS \<and> k pid"
      by (simp add: sample_timer_callback_def)
    then show ?thesis by blast
  next
    case False
    from Cons.prems(1) have "pid \<in> store_pids (sample_timer_callback k j ts ?s1)"
      by (simp add: tick_Cons)
    from Cons.IH [OF this False] obtain pre u post
      where u: "ts = pre @ u # post" "t_pid u = pid" "\<not> t_kthread u" "t_exit_state u = 0"
        "total_tracked (sample_timer_callback k j pre ?s1) < MAX_TRACKED_PROCS" "k pid"
      by blast
    then have "t # ts = (t # pre) @ u # post \<and> t_pid u = pid \<and> \<not> t_kthread u \<and>
          t_exit_state u = 0 \<and>
          total_tracked (sample_timer_callback k j (t # pre) st) < MAX_TRACKED_PROCS \<and> k pid"
      by (simp add: tick_Cons)
    then show ?thesis by blast
  qed
qed

text \<open>
  C2, as the claim states it, fails: the tick never removes a signature. A process sampled
  in one tick and absent from the next snapshot keeps its signature.
\<close>

theorem exited_pid_stays_counterexample:
  "store_pids (sample_timer_callback (\<lambda>pid. True) 1 [task_user] kstate_init) = {1} \<and>
   sampled_pids [] = {} \<and>
   store_pids (sample_timer_callback (\<lambda>pid. True) 2 []
      (sample_timer_callback (\<lambda>pid. True) 1 [task_user] kstate_init)) = {1}"
  by (simp add: sample_timer_callback_def sample_task_def task_user_def kstate_init_def
      get_or_create_signature_def MAX_TRACKED_PROCS_def case_prod_beta store_pids_def
      sampled_pids_def new_signature_def update_signature_fields)

text \<open>
  C2, amended. A tick keeps every signature the store holds, whether or not the pid is in
  the snapshot: nothing is removed for an exited process. The tick takes the tasks of the
  snapshot in order. A task that is neither a kernel thread nor exiting has a signature
  after the tick if, when the tick reaches it, its pid has one already or the counter is
  below 4096 and the allocation succeeds; and a signature that is new after the tick
  belongs to such a task, reached while the counter was below 4096 and allocated
  successfully. In particular a tick adds signatures only for sampled pids of the
  snapshot, and for all of them when the store has room for the whole snapshot and the
  allocations succeed.
\<close>

theorem tick_keeps_signatures:
  "store_pids st \<subseteq> store_pids (sample_timer_callback k j tasks st) \<and>
   store_pids (sample_timer_callback k j tasks st) \<subseteq> store_pids st \<union> sampled_pids tasks \<and>
   (total_tracked st + int (length tasks) \<le> MAX_TRACKED_PROCS \<and> (\<forall>pid. k pid)
      \<longrightarrow> store_pids (sample_timer_callback k j tasks st) = store_pids st \<union> sampled_pids tasks) \<and>
   (tasks = pre @ t # post \<and> \<not> t_kthread t \<and> t_exit_state t = 0 \<and>
    (t_pid t \<in> store_pids (sample_timer_callback k j pre st) \<or>
     (total_tracked (sample_timer_callback k j pre st) < MAX_TRACKED_PROCS \<and> k (t_pid t)))
      \<longrightarrow> t_pid t \<in> store_pids (sample_timer_callback k j tasks st)) \<and>
   (pid \<in> store_pids (sample_timer_callback k j tasks st) \<and> pid \<notin> store_pids st
      \<longrightarrow> (\<exists>pre t post. tasks = pre @ t # post \<and> t_pid t = pid \<and> \<not> t_kthread t \<and>
             t_exit_state t = 0 \<and>
             total_tracked (sample_timer_callback k j pre st) < MAX_TRACKED_PROCS \<and> k pid))"
  using tick_pids_bounds [of st k j tasks] tick_pids_room [of st tasks k j]
    tick_creates [of tasks pre t post k j st] tick_created_from [of pid k j tasks st]
  by (simp add: sample_timer_callback_def)

lemma almost_full_facts:
  "total_tracked almost_full_store = 4095"
  "5000 \<notin> store_pids almost_full_store" "5001 \<notin> store_pids almost_full_store"
  by (auto simp: almost_full_store_def store_pids_def new_signature_def)

lemma last_slot_taken:
  "total_tracked (sample_timer_callback (\<lambda>pid. True) 1 [task_late_a] almost_full_store) = 4096"
  using sample_task_exact [of "\<lambda>pid. True" 1 task_late_a almost_full_store]
  by (simp add: tick_Cons sample_timer_callback_def almost_full_facts task_late_a_def
      MAX_TRACKED_PROCS_def)

lemma tick_Nil: "sample_timer_callback k j [] st = st"
  by (simp add: sample_timer_callback_def)

theorem tick_keeps_signatures_witness:
  "store_pids (sample_timer_callback (\<lambda>pid. True) 1 [task_user, task_kthread, task_zombie] kstate_init)
     = {1} \<and>
   store_pids (sample_timer_callback (\<lambda>pid. True) 2 [task_kthread]
      (sample_timer_callback (\<lambda>pid. True) 1 [task_user, task_kthread, task_zombie] kstate_init))
     = {1} \<and>
   total_tracked almost_full_store = MAX_TRACKED_PROCS - 1 \<and>
   5000 \<in> store_pids (sample_timer_callback (\<lambda>pid. True) 1 [task_late_a, task_late_b] almost_full_store) \<and>
   5001 \<notin> store_pids (sample_timer_callback (\<lambda>pid. True) 1 [task_late_a, task_late_b] almost_full_store)"
proof -
  have s: "sampled_pids [task_user, task_kthread, task_zombie] = {1}" "sampled_pids [task_kthread] = {}"
    by (simp_all add: sampled_pids_filter task_user_def task_kthread_def task_zombie_def)
  have e: "store_pids kstate_init = {}" "total_tracked kstate_init = 0"
    by (simp_all add: store_pids_def kstate_init_def)
  from tick_keeps_signatures [of kstate_init "\<lambda>pid. True" 1 "[task_user, task_kthread, task_zombie]",
      THEN conjunct2, THEN conjunct2, THEN conjunct1]
  have first: "store_pids (sample_timer_callback (\<lambda>pid. True) 1
      [task_user, task_kthread, task_zombie] kstate_init) = {1}"
    by (simp add: s e MAX_TRACKED_PROCS_def)
  let ?one = "sample_timer_callback (\<lambda>pid. True) 1 [task_user, task_kthread, task_zombie] kstate_init"
  note two = tick_keeps_signatures [of ?one "\<lambda>pid. True" 2 "[task_kthread]"]
  have "store_pids ?one \<subseteq> store_pids (sample_timer_callback (\<lambda>pid. True) 2 [task_kthread] ?one)"
    by (rule two [THEN conjunct1])
  moreover have "store_pids (sample_timer_callback (\<lambda>pid. True) 2 [task_kthread] ?one)
           \<subseteq> store_pids ?one \<union> sampled_pids [task_kthread]"
    by (rule two [THEN conjunct2, THEN conjunct1])
  ultimately have second: "store_pids (sample_timer_callback (\<lambda>pid. True) 2 [task_kthread] ?one) = {1}"
    by (auto simp: s first)
  let ?late = "sample_timer_callback (\<lambda>pid. True) 1 [task_late_a, task_late_b] almost_full_store"
  from tick_keeps_signatures [where tasks = "[task_late_a, task_late_b]" and pre = "[]"
      and t = task_late_a and post = "[task_late_b]" and st = almost_full_store
      and k = "\<lambda>pid. True" and j = 1,
      THEN conjunct2, THEN conjunct2, THEN conjunct2, THEN conjunct1]
  have a: "5000 \<in> store_pids ?late"
    by (simp add: tick_Nil almost_full_facts task_late_a_def MAX_TRACKED_PROCS_def)
  have b: "5001 \<notin> store_pids ?late"
  proof
    assume m: "5001 \<in> store_pids ?late"
    from tick_keeps_signatures [where tasks = "[task_late_a, task_late_b]" and pid = 5001
        and st = almost_full_store and k = "\<lambda>pid. True" and j = 1,
        THEN conjunct2, THEN conjunct2, THEN conjunct2, THEN conjunct2] m almost_full_facts(3)
    obtain pre t post where sp: "[task_late_a, task_late_b] = pre @ t # post" "t_pid t = 5001"
      "total_tracked (sample_timer_callback (\<lambda>pid. True) 1 pre almost_full_store) < MAX_TRACKED_PROCS"
      by blast
    from sp(1) have "pre = [] \<and> t = task_late_a \<or> pre = [task_late_a] \<and> t = task_late_b"
      by (auto simp: Cons_eq_append_conv)
    with sp(2,3) last_slot_taken show False
      by (auto simp: task_late_a_def MAX_TRACKED_PROCS_def)
  qed
  from first second a b almost_full_facts(1) show ?thesis
    by (simp add: MAX_TRACKED_PROCS_def)
qed

section \<open>Properties of the response daemon\<close>

subsection \<open>Looking up a pid\<close>

lemma find_tracked_Some:
  "find_tracked xs pid = Some i \<Longrightarrow> i < length xs \<and> tp_pid (xs ! i) = pid"
  by (induction xs arbitrary: i) (auto split: if_splits)

lemma find_tracked_None: "find_tracked xs pid = None \<longleftrightarrow> pid \<notin> tp_pid ` set xs"
  by (induction xs) auto

lemma find_tracked_cong:
  "map tp_pid xs = map tp_pid ys \<Longrightarrow> find_tracked xs pid = find_tracked ys pid"
proof (induction xs arbitrary: ys)
  case Nil
  then show ?case by simp
next
  case (Cons x xs)
  then obtain y ys' where ys: "ys = y # ys'" by (cases ys) auto
  with Cons.prems have "tp_pid x = tp_pid y" "map tp_pid xs = map tp_pid ys'" by simp_all
  with Cons.IH [of ys'] ys show ?case by simp
qed

lemma map_update_same:
  "i < length xs \<Longrightarrow> f p = f (xs ! i) \<Longrightarrow> map f (xs[i := p]) = map f xs"
  by (simp add: list_eq_iff_nth_eq nth_list_update)

lemma track_full:
  "MAX_TRACKED \<le> tracked_count st \<Longrightarrow> find_tracked (tracked st) pid = None \<Longrightarrow>
     track now pid comm_arg st = None \<and> track_cpu os now pid comm_arg st = None"
  by (simp add: track_def track_cpu_def add_tracked_def)

lemma track_found:
  "find_tracked (tracked st) pid = Some i \<Longrightarrow>
     track now pid comm_arg st = Some (i, st) \<and> track_cpu os now pid comm_arg st = Some (i, st)"
  by (simp add: track_def track_cpu_def)

subsection \<open>What the handlers do to the table\<close>

lemma tp_pid_note_spike [simp]: "tp_pid (note_spike kind now p) = tp_pid p"
  by (simp add: note_spike_def)

lemma cpu_body_pids:
  "i < length (tracked st) \<Longrightarrow>
     map tp_pid (tracked (cpu_spike_body os now pid comm_arg roc i st)) = map tp_pid (tracked st)"
  by (simp add: cpu_spike_body_def Let_def set_nice_def log_action_def map_update_same
      split: prod.splits)

lemma mem_body_pids:
  "i < length (tracked st) \<Longrightarrow>
     map tp_pid (tracked (mem_spike_body os now pid comm_arg roc i st)) = map tp_pid (tracked st)"
  by (simp add: mem_spike_body_def Let_def log_action_def map_update_same)

lemma io_body_pids:
  "i < length (tracked st) \<Longrightarrow>
     map tp_pid (tracked (io_spike_body os now pid comm_arg roc i st)) = map tp_pid (tracked st)"
  by (simp add: io_spike_body_def Let_def set_io_priority_def log_action_def map_update_same
      split: prod.splits)

lemma restore_one_pids:
  "i < length (tracked st) \<Longrightarrow>
     map tp_pid (tracked (restore_one os now i st)) = map tp_pid (tracked st)"
  by (simp add: restore_one_def Let_def set_nice_def log_action_def restored_def map_update_same
      split: prod.splits)

lemma restore_fold_pids:
  "\<forall>i\<in>set js. i < length (tracked st) \<Longrightarrow>
     map tp_pid (tracked (fold (restore_one os now) js st)) = map tp_pid (tracked st)"
proof (induction js arbitrary: st)
  case Nil
  then show ?case by simp
next
  case (Cons j js)
  have one: "map tp_pid (tracked (restore_one os now j st)) = map tp_pid (tracked st)"
    using Cons.prems by (simp add: restore_one_pids)
  then have "length (tracked (restore_one os now j st)) = length (tracked st)"
    by (metis length_map)
  with Cons.prems have "\<forall>i\<in>set js. i < length (tracked (restore_one os now j st))" by simp
  from Cons.IH [OF this] one show ?case by simp
qed

lemma restore_priorities_pids:
  "map tp_pid (tracked (restore_priorities os now st)) = map tp_pid (tracked st)"
  by (simp add: restore_priorities_def restore_fold_pids)

text \<open>With a full table, no call changes which pids are tracked.\<close>

lemma step_pids_full:
  assumes "MAX_TRACKED \<le> tracked_count st"
  shows "map tp_pid (tracked (daemon_step e st)) = map tp_pid (tracked st)"
proof -
  obtain os now ev where e: "e = (os, now, ev)" by (cases e) auto
  have handler: "map tp_pid (tracked (case t of None \<Rightarrow> st | Some (i, st0) \<Rightarrow> body i st0))
                   = map tp_pid (tracked st)"
    if t: "find_tracked (tracked st) pid = None \<Longrightarrow> t = None"
          "\<And>i. find_tracked (tracked st) pid = Some i \<Longrightarrow> t = Some (i, st)"
      and body: "\<And>i. i < length (tracked st) \<Longrightarrow>
                   map tp_pid (tracked (body i st)) = map tp_pid (tracked st)"
    for t :: "(nat \<times> daemon) option" and body pid
  proof (cases "find_tracked (tracked st) pid")
    case None
    with t(1) show ?thesis by simp
  next
    case (Some i)
    with t(2) body [of i] find_tracked_Some [OF Some] show ?thesis by simp
  qed
  show ?thesis
  proof (cases ev)
    case (CpuSpike pid comm_arg roc)
    show ?thesis
      unfolding e CpuSpike daemon_step.simps handle_cpu_spike_def
      by (rule handler [where pid = pid])
        (simp_all add: track_full [OF assms] track_found cpu_body_pids)
  next
    case (MemSpike pid comm_arg roc)
    show ?thesis
      unfolding e MemSpike daemon_step.simps handle_mem_spike_def
      by (rule handler [where pid = pid])
        (simp_all add: track_full [OF assms] track_found mem_body_pids)
  next
    case (IoSpike pid comm_arg roc)
    show ?thesis
      unfolding e IoSpike daemon_step.simps handle_io_spike_def
      by (rule handler [where pid = pid])
        (simp_all add: track_full [OF assms] track_found io_body_pids)
  next
    case RestoreAll
    then show ?thesis by (simp add: e restore_priorities_pids)
  qed
qed

lemma run_pids_full:
  "MAX_TRACKED \<le> tracked_count st \<Longrightarrow>
     map tp_pid (tracked (run_events evs st)) = map tp_pid (tracked st)"
proof (induction evs arbitrary: st)
  case Nil
  then show ?case by (simp add: run_events_def)
next
  case (Cons e evs)
  have one: "map tp_pid (tracked (daemon_step e st)) = map tp_pid (tracked st)"
    by (rule step_pids_full [OF Cons.prems])
  then have "length (tracked (daemon_step e st)) = length (tracked st)"
    by (metis length_map)
  with Cons.prems have "MAX_TRACKED \<le> tracked_count (daemon_step e st)"
    by (simp add: tracked_count_def)
  from Cons.IH [OF this] one show ?case by (simp add: run_events_def)
qed

text \<open>
  C10. When all 1024 entries are in use and the pid is not tracked, each of the three
  handlers returns the daemon's state as it was: no entry is created, no request reaches
  the sink, nothing is logged and no counter moves. No later call of a handler or of the
  restoring loop frees an entry or tracks the pid, so the same holds after any run.
\<close>

theorem full_table_drops_new_pid:
  assumes "MAX_TRACKED \<le> tracked_count st" and "find_tracked (tracked st) pid = None"
  shows "MAX_TRACKED \<le> tracked_count (run_events evs st) \<and>
         find_tracked (tracked (run_events evs st)) pid = None \<and>
         handle_cpu_spike os now pid comm_arg roc (run_events evs st) = run_events evs st \<and>
         handle_mem_spike os now pid comm_arg roc (run_events evs st) = run_events evs st \<and>
         handle_io_spike os now pid comm_arg roc (run_events evs st) = run_events evs st"
proof -
  let ?st = "run_events evs st"
  have pids: "map tp_pid (tracked ?st) = map tp_pid (tracked st)"
    by (rule run_pids_full [OF assms(1)])
  then have "length (tracked ?st) = length (tracked st)"
    by (metis length_map)
  with assms(1) have full: "MAX_TRACKED \<le> tracked_count ?st"
    by (simp add: tracked_count_def)
  from find_tracked_cong [OF pids] assms(2) have none: "find_tracked (tracked ?st) pid = None"
    by simp
  from track_full [OF full none] full none show ?thesis
    by (simp add: handle_cpu_spike_def handle_mem_spike_def handle_io_spike_def)
qed

theorem full_table_drops_new_pid_witness:
  "MAX_TRACKED \<le> tracked_count full_table \<and>
   find_tracked (tracked full_table) 5000 = None \<and>
   handle_cpu_spike env_live 100 5000 ''late'' 2500 full_table = full_table \<and>
   handle_mem_spike env_live 100 5000 ''late'' 2500 full_table = full_table \<and>
   handle_io_spike env_live 100 5000 ''late'' 2500 full_table = full_table"
proof -
  have full: "MAX_TRACKED \<le> tracked_count full_table"
    by (simp add: full_table_def tracked_count_def MAX_TRACKED_def)
  have none: "find_tracked (tracked full_table) 5000 = None"
    by (auto simp: find_tracked_None full_table_def new_tracked_def)
  from full_table_drops_new_pid [OF full none, of "[]" env_live 100 "''late''" 2500] full none
  show ?thesis by (simp add: run_events_def)
qed

subsection \<open>A pass over the predictions file is a run\<close>

lemma run_events_append: "run_events (evs @ evs') st = run_events evs' (run_events evs st)"
  by (simp add: run_events_def)

lemma handle_row_run: "\<exists>evs. handle_row os now r st = run_events evs st"
proof -
  let ?c = "if cpu_flag r = CHR ''*'' then [(os, now, CpuSpike (row_pid r) (row_comm r) (row_cpu_roc r))] else []"
  let ?m = "if mem_flag r = CHR ''*'' then [(os, now, MemSpike (row_pid r) (row_comm r) (row_mem_roc r))] else []"
  let ?i = "if io_flag r = CHR ''*'' then [(os, now, IoSpike (row_pid r) (row_comm r) (row_io_roc r))] else []"
  have "handle_row os now r st = run_events (?c @ ?m @ ?i) st"
    by (simp add: handle_row_def run_events_def Let_def)
  then show ?thesis by blast
qed

lemma handle_rows_run: "\<exists>evs. fold (handle_row os now) rows st = run_events evs st"
proof (induction rows arbitrary: st)
  case Nil
  have "fold (handle_row os now) [] st = run_events [] st" by (simp add: run_events_def)
  then show ?case by blast
next
  case (Cons r rows)
  from handle_row_run [of os now r st] obtain e1 where e1: "handle_row os now r st = run_events e1 st"
    by blast
  from Cons.IH [of "handle_row os now r st"] obtain e2
    where e2: "fold (handle_row os now) rows (handle_row os now r st)
                 = run_events e2 (handle_row os now r st)"
    by blast
  have "fold (handle_row os now) (r # rows) st = fold (handle_row os now) rows (handle_row os now r st)"
    by simp
  also have "\<dots> = run_events e2 (handle_row os now r st)" by (rule e2)
  also have "\<dots> = run_events (e1 @ e2) st" by (simp only: e1 run_events_append)
  finally show ?case by blast
qed

lemma process_predictions_run: "\<exists>evs. process_predictions os now f st = run_events evs st"
proof (cases f)
  case None
  have "process_predictions os now None st = run_events [] st"
    by (simp add: process_predictions_def run_events_def)
  with None show ?thesis by blast
next
  case (Some rows)
  from handle_rows_run [of os now rows st] obtain e where e: "fold (handle_row os now) rows st = run_events e st"
    by blast
  have "run_events (e @ [(os, now, RestoreAll)]) st = restore_priorities os now (run_events e st)"
    by (simp add: run_events_def)
  then have "process_predictions os now (Some rows) st = run_events (e @ [(os, now, RestoreAll)]) st"
    by (simp add: process_predictions_def e)
  with Some show ?thesis by blast
qed

subsection \<open>Restoration\<close>

lemma restored_fields:
  "current_nice (restored p) = original_nice p" "spike_samples (restored p) = 0"
  "escalation (restored p) = ESCALATION_NONE" "adjusted (restored p) = False"
  "tp_pid (restored p) = tp_pid p" "last_seen (restored p) = last_seen p"
  by (simp_all add: restored_def)

lemma set_nice_result:
  "fst (set_nice os pid n comm_arg st) = ACTION_SUCCESS \<longleftrightarrow> dry_run os \<or> setpriority_ok os pid n"
  "sink (snd (set_nice os pid n comm_arg st)) = sink st @ [SetNice pid n]"
  "tracked (snd (set_nice os pid n comm_arg st)) = tracked st"
  "stats (snd (set_nice os pid n comm_arg st)) = stats st"
  by (simp_all add: set_nice_def log_action_def Let_def)

lemma restore_one_sink:
  "sink (restore_one os now i st) =
     (if adjusted (tracked st ! i) \<and> 5 < now - last_seen (tracked st ! i)
      then sink st @ [SetNice (tp_pid (tracked st ! i)) (original_nice (tracked st ! i))]
      else sink st)"
  by (simp add: restore_one_def Let_def set_nice_def log_action_def split: prod.splits)

lemma restore_one_tracked:
  "tracked (restore_one os now i st) =
     (if adjusted (tracked st ! i) \<and> 5 < now - last_seen (tracked st ! i) \<and>
         (dry_run os \<or> setpriority_ok os (tp_pid (tracked st ! i)) (original_nice (tracked st ! i)))
      then (tracked st)[i := restored (tracked st ! i)]
      else tracked st)"
  by (simp add: restore_one_def Let_def set_nice_def log_action_def split: prod.splits)

lemma restore_one_nth_self:
  "k < length (tracked st) \<Longrightarrow>
     tracked (restore_one os now k st) ! k =
       (if adjusted (tracked st ! k) \<and> 5 < now - last_seen (tracked st ! k) \<and>
           (dry_run os \<or> setpriority_ok os (tp_pid (tracked st ! k)) (original_nice (tracked st ! k)))
        then restored (tracked st ! k) else tracked st ! k)"
  by (auto simp: restore_one_tracked)

lemma restore_one_length [simp]:
  "length (tracked (restore_one os now i st)) = length (tracked st)"
  by (simp add: restore_one_tracked)

lemma restore_one_other:
  "k \<noteq> i \<Longrightarrow> tracked (restore_one os now i st) ! k = tracked st ! k"
  by (simp add: restore_one_tracked)

lemma restore_fold_length [simp]:
  "length (tracked (fold (restore_one os now) js st)) = length (tracked st)"
  by (induction js arbitrary: st) simp_all

lemma restore_fold_untouched:
  "k \<notin> set js \<Longrightarrow> tracked (fold (restore_one os now) js st) ! k = tracked st ! k"
  by (induction js arbitrary: st) (simp_all add: restore_one_other)

lemma restore_fold_nth:
  assumes "distinct js" and "k \<in> set js" and "k < length (tracked st)"
  shows "tracked (fold (restore_one os now) js st) ! k = tracked (restore_one os now k st) ! k"
  using assms
proof (induction js arbitrary: st)
  case Nil
  then show ?case by simp
next
  case (Cons j js)
  show ?case
  proof (cases "j = k")
    case True
    with Cons.prems have "k \<notin> set js" by simp
    then show ?thesis using True by (simp add: restore_fold_untouched)
  next
    case False
    with Cons.prems have k: "k \<in> set js" "distinct js" by simp_all
    have same: "tracked (restore_one os now j st) ! k = tracked st ! k"
      using False by (simp add: restore_one_other)
    have "tracked (fold (restore_one os now) js (restore_one os now j st)) ! k
            = tracked (restore_one os now k (restore_one os now j st)) ! k"
      using Cons.IH [OF k(2) k(1), of "restore_one os now j st"] Cons.prems(3) by simp
    also have "\<dots> = tracked (restore_one os now k st) ! k"
      using Cons.prems(3) by (simp only: restore_one_nth_self restore_one_length same)
    finally show ?thesis by simp
  qed
qed

lemma restore_priorities_nth:
  assumes "k < length (tracked st)"
  shows "tracked (restore_priorities os now st) ! k = tracked (restore_one os now k st) ! k"
  unfolding restore_priorities_def
  using assms by (intro restore_fold_nth) simp_all

subsection \<open>The restoring loop as a whole\<close>

lemma restore_fold_sink:
  "distinct js \<Longrightarrow>
     sink (fold (restore_one os now) js st) =
       sink st @ map (\<lambda>j. SetNice (tp_pid (tracked st ! j)) (original_nice (tracked st ! j)))
                  (filter (\<lambda>j. adjusted (tracked st ! j) \<and> 5 < now - last_seen (tracked st ! j)) js)"
proof (induction js arbitrary: st)
  case Nil
  then show ?case by simp
next
  case (Cons j js)
  let ?s1 = "restore_one os now j st"
  from Cons.prems have d: "distinct js" and nj: "j \<notin> set js" by simp_all
  have same: "tracked ?s1 ! k = tracked st ! k" if "k \<in> set js" for k
    using that nj by (intro restore_one_other) auto
  have "sink (fold (restore_one os now) js ?s1) =
          sink ?s1 @ map (\<lambda>j. SetNice (tp_pid (tracked ?s1 ! j)) (original_nice (tracked ?s1 ! j)))
                  (filter (\<lambda>j. adjusted (tracked ?s1 ! j) \<and> 5 < now - last_seen (tracked ?s1 ! j)) js)"
    by (rule Cons.IH [OF d])
  also have "filter (\<lambda>j. adjusted (tracked ?s1 ! j) \<and> 5 < now - last_seen (tracked ?s1 ! j)) js
               = filter (\<lambda>j. adjusted (tracked st ! j) \<and> 5 < now - last_seen (tracked st ! j)) js"
    by (rule filter_cong) (simp_all add: same)
  also have "map (\<lambda>j. SetNice (tp_pid (tracked ?s1 ! j)) (original_nice (tracked ?s1 ! j)))
                (filter (\<lambda>j. adjusted (tracked st ! j) \<and> 5 < now - last_seen (tracked st ! j)) js)
             = map (\<lambda>j. SetNice (tp_pid (tracked st ! j)) (original_nice (tracked st ! j)))
                (filter (\<lambda>j. adjusted (tracked st ! j) \<and> 5 < now - last_seen (tracked st ! j)) js)"
    by (rule map_cong) (simp_all add: same)
  finally show ?case by (simp add: restore_one_sink)
qed

lemma by_index:
  "map (\<lambda>j. f (xs ! j)) (filter (\<lambda>j. P (xs ! j)) [0..<length xs]) = map f (filter P xs)"
proof -
  have "map f (filter P xs) = map f (filter P (map ((!) xs) [0..<length xs]))"
    by (simp add: map_nth)
  also have "\<dots> = map (\<lambda>j. f (xs ! j)) (filter (\<lambda>j. P (xs ! j)) [0..<length xs])"
    by (simp add: filter_map o_def)
  finally show ?thesis by simp
qed

lemma restore_priorities_sink:
  "sink (restore_priorities os now st) =
     sink st @ map (\<lambda>p. SetNice (tp_pid p) (original_nice p))
                (filter (\<lambda>p. adjusted p \<and> 5 < now - last_seen p) (tracked st))"
  unfolding restore_priorities_def
  using by_index [of "\<lambda>p. SetNice (tp_pid p) (original_nice p)" "tracked st"
      "\<lambda>p. adjusted p \<and> 5 < now - last_seen p"]
  by (simp add: restore_fold_sink)

lemma restore_priorities_tracked:
  "tracked (restore_priorities os now st) =
     map (\<lambda>p. if adjusted p \<and> 5 < now - last_seen p \<and>
                  (dry_run os \<or> setpriority_ok os (tp_pid p) (original_nice p))
               then restored p else p) (tracked st)"
proof (rule nth_equalityI)
  show "length (tracked (restore_priorities os now st)) = length (map (\<lambda>p. if adjusted p \<and> 5 < now - last_seen p \<and>
                  (dry_run os \<or> setpriority_ok os (tp_pid p) (original_nice p))
               then restored p else p) (tracked st))"
    by (simp add: restore_priorities_def)
next
  fix i assume "i < length (tracked (restore_priorities os now st))"
  then have i: "i < length (tracked st)" by (simp add: restore_priorities_def)
  then show "tracked (restore_priorities os now st) ! i = map (\<lambda>p. if adjusted p \<and> 5 < now - last_seen p \<and>
                  (dry_run os \<or> setpriority_ok os (tp_pid p) (original_nice p))
               then restored p else p) (tracked st) ! i"
    by (simp add: restore_priorities_nth restore_one_nth_self)
qed

subsection \<open>Entries a handler does not touch\<close>

lemma cpu_body_shape:
  "length (tracked (cpu_spike_body os now pid comm_arg roc i st)) = length (tracked st)"
  "k \<noteq> i \<Longrightarrow> tracked (cpu_spike_body os now pid comm_arg roc i st) ! k = tracked st ! k"
  by (simp_all add: cpu_spike_body_def Let_def set_nice_def log_action_def split: prod.splits)

lemma mem_body_shape:
  "length (tracked (mem_spike_body os now pid comm_arg roc i st)) = length (tracked st)"
  "k \<noteq> i \<Longrightarrow> tracked (mem_spike_body os now pid comm_arg roc i st) ! k = tracked st ! k"
  by (simp_all add: mem_spike_body_def Let_def log_action_def)

lemma io_body_shape:
  "length (tracked (io_spike_body os now pid comm_arg roc i st)) = length (tracked st)"
  "k \<noteq> i \<Longrightarrow> tracked (io_spike_body os now pid comm_arg roc i st) ! k = tracked st ! k"
  by (simp_all add: io_spike_body_def Let_def set_io_priority_def log_action_def
      split: prod.splits)

lemma find_tracked_append:
  "find_tracked xs pid = None \<Longrightarrow> tp_pid p = pid \<Longrightarrow> find_tracked (xs @ [p]) pid = Some (length xs)"
  by (induction xs) (auto split: if_splits)

lemma track_finds:
  assumes "track now pid comm_arg st = Some (i, st0)"
  shows "find_tracked (tracked st0) pid = Some i" and "sink st0 = sink st"
  using assms
  by (auto simp: track_def add_tracked_def new_tracked_def find_tracked_append
      split: option.splits if_splits)

lemma track_cpu_finds:
  assumes "track_cpu os now pid comm_arg st = Some (i, st0)"
  shows "find_tracked (tracked st0) pid = Some i" and "sink st0 = sink st"
proof -
  show "sink st0 = sink st"
    using assms
    by (auto simp: track_cpu_def add_tracked_def split: option.splits if_splits)
  show "find_tracked (tracked st0) pid = Some i"
  proof (cases "find_tracked (tracked st) pid")
    case (Some k)
    with assms show ?thesis by (simp add: track_cpu_def)
  next
    case None
    with assms have st0: "i = length (tracked st)"
      "tracked st0 = (tracked st @ [new_tracked now pid comm_arg])
          [i := ((tracked st @ [new_tracked now pid comm_arg]) ! i)\<lparr>original_nice := get_nice os pid\<rparr>]"
      by (auto simp: track_cpu_def add_tracked_def split: if_splits)
    have "map tp_pid (tracked st0) = map tp_pid (tracked st @ [new_tracked now pid comm_arg])"
      unfolding st0(2) by (rule map_update_same) (simp_all add: st0(1))
    from find_tracked_cong [OF this, of pid] None show ?thesis
      by (simp add: find_tracked_append new_tracked_def st0(1))
  qed
qed

text \<open>A handler leaves the entries of other pids alone.\<close>

lemma track_keeps_entry:
  assumes "track now pid comm_arg st = Some (j, st0)" and "i < length (tracked st)"
  shows "tracked st0 ! i = tracked st ! i" and "i < length (tracked st0)"
  using assms
  by (auto simp: track_def add_tracked_def nth_append split: option.splits if_splits)

lemma track_cpu_keeps_entry:
  assumes "track_cpu os now pid comm_arg st = Some (j, st0)" and "i < length (tracked st)"
  shows "tracked st0 ! i = tracked st ! i" and "i < length (tracked st0)"
  using assms
  by (auto simp: track_cpu_def add_tracked_def nth_append split: option.splits if_splits)

lemma cpu_other_entry:
  assumes "i < length (tracked st)" and "tp_pid (tracked st ! i) \<noteq> pid"
  shows "tracked (handle_cpu_spike os now pid comm_arg roc st) ! i = tracked st ! i"
    and "i < length (tracked (handle_cpu_spike os now pid comm_arg roc st))"
proof -
  have "tracked (handle_cpu_spike os now pid comm_arg roc st) ! i = tracked st ! i \<and>
        i < length (tracked (handle_cpu_spike os now pid comm_arg roc st))"
  proof (cases "track_cpu os now pid comm_arg st")
    case None
    with assms(1) show ?thesis by (simp add: handle_cpu_spike_def)
  next
    case (Some r)
    obtain j st0 where r: "r = (j, st0)" by (cases r) auto
    note t = Some [unfolded r]
    from track_cpu_keeps_entry [OF t assms(1)]
    have e: "tracked st0 ! i = tracked st ! i" "i < length (tracked st0)" by simp_all
    from find_tracked_Some [OF track_cpu_finds(1) [OF t]] have "tp_pid (tracked st0 ! j) = pid" by simp
    with e(1) assms(2) have "i \<noteq> j" by auto
    with e show ?thesis
      by (simp add: handle_cpu_spike_def Some r cpu_body_shape)
  qed
  then show "tracked (handle_cpu_spike os now pid comm_arg roc st) ! i = tracked st ! i"
    and "i < length (tracked (handle_cpu_spike os now pid comm_arg roc st))" by simp_all
qed

lemma mem_other_entry:
  assumes "i < length (tracked st)" and "tp_pid (tracked st ! i) \<noteq> pid"
  shows "tracked (handle_mem_spike os now pid comm_arg roc st) ! i = tracked st ! i"
    and "i < length (tracked (handle_mem_spike os now pid comm_arg roc st))"
proof -
  have "tracked (handle_mem_spike os now pid comm_arg roc st) ! i = tracked st ! i \<and>
        i < length (tracked (handle_mem_spike os now pid comm_arg roc st))"
  proof (cases "track now pid comm_arg st")
    case None
    with assms(1) show ?thesis by (simp add: handle_mem_spike_def)
  next
    case (Some r)
    obtain j st0 where r: "r = (j, st0)" by (cases r) auto
    note t = Some [unfolded r]
    from track_keeps_entry [OF t assms(1)]
    have e: "tracked st0 ! i = tracked st ! i" "i < length (tracked st0)" by simp_all
    from find_tracked_Some [OF track_finds(1) [OF t]] have "tp_pid (tracked st0 ! j) = pid" by simp
    with e(1) assms(2) have "i \<noteq> j" by auto
    with e show ?thesis
      by (simp add: handle_mem_spike_def Some r mem_body_shape)
  qed
  then show "tracked (handle_mem_spike os now pid comm_arg roc st) ! i = tracked st ! i"
    and "i < length (tracked (handle_mem_spike os now pid comm_arg roc st))" by simp_all
qed

lemma io_other_entry:
  assumes "i < length (tracked st)" and "tp_pid (tracked st ! i) \<noteq> pid"
  shows "tracked (handle_io_spike os now pid comm_arg roc st) ! i = tracked st ! i"
    and "i < length (tracked (handle_io_spike os now pid comm_arg roc st))"
proof -
  have "tracked (handle_io_spike os now pid comm_arg roc st) ! i = tracked st ! i \<and>
        i < length (tracked (handle_io_spike os now pid comm_arg roc st))"
  proof (cases "track now pid comm_arg st")
    case None
    with assms(1) show ?thesis by (simp add: handle_io_spike_def)
  next
    case (Some r)
    obtain j st0 where r: "r = (j, st0)" by (cases r) auto
    note t = Some [unfolded r]
    from track_keeps_entry [OF t assms(1)]
    have e: "tracked st0 ! i = tracked st ! i" "i < length (tracked st0)" by simp_all
    from find_tracked_Some [OF track_finds(1) [OF t]] have "tp_pid (tracked st0 ! j) = pid" by simp
    with e(1) assms(2) have "i \<noteq> j" by auto
    with e show ?thesis
      by (simp add: handle_io_spike_def Some r io_body_shape)
  qed
  then show "tracked (handle_io_spike os now pid comm_arg roc st) ! i = tracked st ! i"
    and "i < length (tracked (handle_io_spike os now pid comm_arg roc st))" by simp_all
qed

lemma row_other_entry:
  assumes "i < length (tracked st)" and "tp_pid (tracked st ! i) \<noteq> row_pid r"
  shows "tracked (handle_row os now r st) ! i = tracked st ! i \<and>
         i < length (tracked (handle_row os now r st))"
proof -
  let ?s1 = "if cpu_flag r = CHR ''*''
             then handle_cpu_spike os now (row_pid r) (row_comm r) (row_cpu_roc r) st else st"
  let ?s2 = "if mem_flag r = CHR ''*''
             then handle_mem_spike os now (row_pid r) (row_comm r) (row_mem_roc r) ?s1 else ?s1"
  let ?s3 = "if io_flag r = CHR ''*''
             then handle_io_spike os now (row_pid r) (row_comm r) (row_io_roc r) ?s2 else ?s2"
  have 1: "tracked ?s1 ! i = tracked st ! i \<and> i < length (tracked ?s1)"
    using assms by (simp add: cpu_other_entry)
  then have 2: "tracked ?s2 ! i = tracked st ! i \<and> i < length (tracked ?s2)"
    using assms(2) mem_other_entry [of i ?s1 "row_pid r"] by (cases "mem_flag r = CHR ''*''") simp_all
  then have 3: "tracked ?s3 ! i = tracked st ! i \<and> i < length (tracked ?s3)"
    using assms(2) io_other_entry [of i ?s2 "row_pid r"] by (cases "io_flag r = CHR ''*''") simp_all
  have "handle_row os now r st = ?s3"
    by (simp add: handle_row_def Let_def)
  with 3 show ?thesis by simp
qed

lemma rows_other_entry:
  assumes "i < length (tracked st)" and "tp_pid (tracked st ! i) \<notin> row_pid ` set rows"
  shows "tracked (fold (handle_row os now) rows st) ! i = tracked st ! i \<and>
         i < length (tracked (fold (handle_row os now) rows st))"
  using assms
proof (induction rows arbitrary: st)
  case Nil
  then show ?case by simp
next
  case (Cons r rows)
  from Cons.prems have ne: "tp_pid (tracked st ! i) \<noteq> row_pid r" by auto
  from row_other_entry [OF Cons.prems(1) ne, of os now]
  have one: "tracked (handle_row os now r st) ! i = tracked st ! i"
    "i < length (tracked (handle_row os now r st))" by simp_all
  with Cons.prems(2) have "tp_pid (tracked (handle_row os now r st) ! i) \<notin> row_pid ` set rows"
    by auto
  from Cons.IH [OF one(2) this] one(1) show ?case by simp
qed

subsection \<open>Restoration on a tick\<close>



lemma boosted_then_other:
  "tracked (fold (handle_row env_live 107) [row_other]
      (run_events (replicate 3 (env_live, 101, CpuSpike 7 ''job'' 2500)) daemon_init)) ! 0
    = \<lparr>tp_pid = 7, tp_comm = ''job'', original_nice = 0, current_nice = - 5, adjusted = True,
       adjusted_time = 101, last_seen = 101, spike_type = 1, spike_samples = 3,
       escalation = ESCALATION_SOFT, action_count = 1\<rparr>"
  "tracked (run_events (replicate 3 (env_live, 101, CpuSpike 7 ''job'' 2500)) daemon_init) ! 0
    = \<lparr>tp_pid = 7, tp_comm = ''job'', original_nice = 0, current_nice = - 5, adjusted = True,
       adjusted_time = 101, last_seen = 101, spike_type = 1, spike_samples = 3,
       escalation = ESCALATION_SOFT, action_count = 1\<rparr>"
  "length (tracked (run_events (replicate 3 (env_live, 101, CpuSpike 7 ''job'' 2500)) daemon_init)) = 1"
  "sink (fold (handle_row env_live 107) [row_other]
      (run_events (replicate 3 (env_live, 101, CpuSpike 7 ''job'' 2500)) daemon_init))
    = [SetNice 7 (- 5)]"
  "tracked (fold (handle_row env_live 107) [row_other]
      (run_events (replicate 3 (env_live, 101, CpuSpike 7 ''job'' 2500)) daemon_init))
    = [\<lparr>tp_pid = 7, tp_comm = ''job'', original_nice = 0, current_nice = - 5, adjusted = True,
       adjusted_time = 101, last_seen = 101, spike_type = 1, spike_samples = 3,
       escalation = ESCALATION_SOFT, action_count = 1\<rparr>,
       \<lparr>tp_pid = 9, tp_comm = ''other'', original_nice = 0, current_nice = 0, adjusted = False,
       adjusted_time = 0, last_seen = 107, spike_type = 1, spike_samples = 1,
       escalation = ESCALATION_NONE, action_count = 0\<rparr>]"
  by code_simp+


subsection \<open>Escalation levels\<close>

lemma sint_succ:
  fixes x :: cint
  assumes "0 \<le> sint x" and "sint x < 2^31 - 1"
  shows "sint (x + 1) = sint x + 1"
  using assms by (simp add: sint_word_add signed_take_bit_int_eq_self)

lemma entry_counted_mono: "entry_counted n p \<Longrightarrow> n \<le> m \<Longrightarrow> entry_counted m p"
  by (auto simp: entry_counted_def)

lemma entry_counted_bump:
  assumes "entry_counted n p" and "int n < 2^31 - 1" and "spike_samples q = spike_samples p + 1"
    and "escalation q = escalation p \<or> escalation q = get_escalation_level q"
  shows "entry_counted (Suc n) q"
proof -
  from assms(1) have old: "level_value (escalation p) \<le> level_value (get_escalation_level p)"
    by (simp add: entry_counted_def)
  from assms(1,2) have "0 \<le> sint (spike_samples p)" "sint (spike_samples p) < 2^31 - 1"
    "sint (spike_samples p) \<le> int n"
    by (auto simp: entry_counted_def)
  with sint_succ [of "spike_samples p"] assms(3)
  have s: "sint (spike_samples q) = sint (spike_samples p) + 1" by simp
  with \<open>0 \<le> sint (spike_samples p)\<close> have "sint (spike_samples q) \<noteq> 0" by simp
  then have nz: "spike_samples q \<noteq> 0" by auto
  from s have "level_value (get_escalation_level p) \<le> level_value (get_escalation_level q)"
    by (simp add: get_escalation_level_def word_sle_eq)
  with old assms(4) have "level_value (escalation q) \<le> level_value (get_escalation_level q)"
    by auto
  with s nz \<open>0 \<le> sint (spike_samples p)\<close> \<open>sint (spike_samples p) \<le> int n\<close> show ?thesis
    by (simp add: entry_counted_def)
qed

lemma cpu_body_count:
  "i < length (tracked st) \<Longrightarrow>
     spike_samples (tracked (cpu_spike_body os now pid comm_arg roc i st) ! i)
       = spike_samples (tracked st ! i) + 1"
  "i < length (tracked st) \<Longrightarrow>
     escalation (tracked (cpu_spike_body os now pid comm_arg roc i st) ! i)
       = escalation (tracked st ! i) \<or>
     escalation (tracked (cpu_spike_body os now pid comm_arg roc i st) ! i)
       = get_escalation_level (tracked (cpu_spike_body os now pid comm_arg roc i st) ! i)"
  by (auto simp: cpu_spike_body_def Let_def set_nice_def log_action_def note_spike_def get_escalation_level_def
      split: prod.splits)

lemma mem_body_count:
  "i < length (tracked st) \<Longrightarrow>
     spike_samples (tracked (mem_spike_body os now pid comm_arg roc i st) ! i)
       = spike_samples (tracked st ! i) + 1"
  "i < length (tracked st) \<Longrightarrow>
     escalation (tracked (mem_spike_body os now pid comm_arg roc i st) ! i)
       = escalation (tracked st ! i) \<or>
     escalation (tracked (mem_spike_body os now pid comm_arg roc i st) ! i)
       = get_escalation_level (tracked (mem_spike_body os now pid comm_arg roc i st) ! i)"
  by (auto simp: mem_spike_body_def Let_def log_action_def note_spike_def get_escalation_level_def)

lemma io_body_count:
  "i < length (tracked st) \<Longrightarrow>
     spike_samples (tracked (io_spike_body os now pid comm_arg roc i st) ! i)
       = spike_samples (tracked st ! i) + 1"
  "i < length (tracked st) \<Longrightarrow>
     escalation (tracked (io_spike_body os now pid comm_arg roc i st) ! i)
       = escalation (tracked st ! i) \<or>
     escalation (tracked (io_spike_body os now pid comm_arg roc i st) ! i)
       = get_escalation_level (tracked (io_spike_body os now pid comm_arg roc i st) ! i)"
  by (auto simp: io_spike_body_def Let_def set_io_priority_def log_action_def note_spike_def get_escalation_level_def
      split: prod.splits)

lemma track_counted:
  assumes "track now pid comm_arg st = Some (i, st0)"
    and "list_all (entry_counted n) (tracked st)"
  shows "list_all (entry_counted n) (tracked st0)" and "i < length (tracked st0)"
  using assms
  by (auto simp: track_def add_tracked_def new_tracked_def entry_counted_def
      get_escalation_level_def
      dest: find_tracked_Some split: option.splits if_splits)

lemma track_cpu_counted:
  assumes "track_cpu os now pid comm_arg st = Some (i, st0)"
    and "list_all (entry_counted n) (tracked st)"
  shows "list_all (entry_counted n) (tracked st0)" and "i < length (tracked st0)"
  using assms
  by (auto simp: track_cpu_def add_tracked_def new_tracked_def entry_counted_def
      get_escalation_level_def
      dest: find_tracked_Some split: option.splits if_splits)

lemma body_counted:
  assumes "list_all (entry_counted n) (tracked st0)" and "i < length (tracked st0)"
    and "int n < 2^31 - 1"
    and "length (tracked st1) = length (tracked st0)"
    and "\<And>k. k \<noteq> i \<Longrightarrow> tracked st1 ! k = tracked st0 ! k"
    and "spike_samples (tracked st1 ! i) = spike_samples (tracked st0 ! i) + 1"
    and "escalation (tracked st1 ! i) = escalation (tracked st0 ! i) \<or>
         escalation (tracked st1 ! i) = get_escalation_level (tracked st1 ! i)"
  shows "list_all (entry_counted (Suc n)) (tracked st1)"
  unfolding list_all_length
proof (intro allI impI)
  fix k assume k: "k < length (tracked st1)"
  show "entry_counted (Suc n) (tracked st1 ! k)"
  proof (cases "k = i")
    case True
    from assms(1,2) have "entry_counted n (tracked st0 ! i)" by (simp add: list_all_length)
    from entry_counted_bump [OF this assms(3,6,7)] True show ?thesis by simp
  next
    case False
    with assms(1,4,5) k have "entry_counted n (tracked st1 ! k)" by (simp add: list_all_length)
    then show ?thesis by (rule entry_counted_mono) simp
  qed
qed

lemma step_counted:
  assumes "list_all (entry_counted n) (tracked st)" and "int n < 2^31 - 1"
  shows "list_all (entry_counted (Suc n)) (tracked (daemon_step e st))"
proof -
  obtain os now ev where e: "e = (os, now, ev)" by (cases e) auto
  have up: "list_all (entry_counted (Suc n)) xs" if "list_all (entry_counted n) xs" for xs
    using that by (auto simp: list_all_iff intro: entry_counted_mono)
  show ?thesis
  proof (cases ev)
    case (CpuSpike pid comm_arg roc)
    show ?thesis
    proof (cases "track_cpu os now pid comm_arg st")
      case None
      with assms(1) show ?thesis by (simp add: e CpuSpike handle_cpu_spike_def up)
    next
      case (Some r)
      obtain i st0 where r: "r = (i, st0)" by (cases r) auto
      from track_cpu_counted [OF Some [unfolded r] assms(1)]
      have c: "list_all (entry_counted n) (tracked st0)" and idx: "i < length (tracked st0)"
        by simp_all
      from body_counted [OF c idx assms(2) cpu_body_shape(1) cpu_body_shape(2) cpu_body_count(1) [OF idx]
          cpu_body_count(2) [OF idx]]
      show ?thesis by (simp add: e CpuSpike handle_cpu_spike_def Some r)
    qed
  next
    case (MemSpike pid comm_arg roc)
    show ?thesis
    proof (cases "track now pid comm_arg st")
      case None
      with assms(1) show ?thesis by (simp add: e MemSpike handle_mem_spike_def up)
    next
      case (Some r)
      obtain i st0 where r: "r = (i, st0)" by (cases r) auto
      from track_counted [OF Some [unfolded r] assms(1)]
      have c: "list_all (entry_counted n) (tracked st0)" and idx: "i < length (tracked st0)"
        by simp_all
      from body_counted [OF c idx assms(2) mem_body_shape(1) mem_body_shape(2) mem_body_count(1) [OF idx]
          mem_body_count(2) [OF idx]]
      show ?thesis by (simp add: e MemSpike handle_mem_spike_def Some r)
    qed
  next
    case (IoSpike pid comm_arg roc)
    show ?thesis
    proof (cases "track now pid comm_arg st")
      case None
      with assms(1) show ?thesis by (simp add: e IoSpike handle_io_spike_def up)
    next
      case (Some r)
      obtain i st0 where r: "r = (i, st0)" by (cases r) auto
      from track_counted [OF Some [unfolded r] assms(1)]
      have c: "list_all (entry_counted n) (tracked st0)" and idx: "i < length (tracked st0)"
        by simp_all
      from body_counted [OF c idx assms(2) io_body_shape(1) io_body_shape(2) io_body_count(1) [OF idx]
          io_body_count(2) [OF idx]]
      show ?thesis by (simp add: e IoSpike handle_io_spike_def Some r)
    qed
  next
    case RestoreAll
    have "entry_counted n (restored p)" for p
      by (simp add: entry_counted_def restored_fields get_escalation_level_def)
    with assms(1) have "list_all (entry_counted n) (tracked (restore_priorities os now st))"
      by (auto simp: restore_priorities_tracked list_all_iff)
    then show ?thesis by (simp add: e RestoreAll up)
  qed
qed

lemma run_counted:
  "list_all (entry_counted n) (tracked st) \<Longrightarrow> int n + int (length evs) < 2^31 \<Longrightarrow>
     list_all (entry_counted (n + length evs)) (tracked (run_events evs st))"
proof (induction evs arbitrary: n st)
  case Nil
  then show ?case by (simp add: run_events_def)
next
  case (Cons e evs)
  from Cons.prems(2) have "int n < 2^31 - 1" by simp
  from step_counted [OF Cons.prems(1) this, of e]
  have "list_all (entry_counted (Suc n)) (tracked (daemon_step e st))" .
  moreover from Cons.prems(2) have "int (Suc n) + int (length evs) < 2^31" by simp
  ultimately have "list_all (entry_counted (Suc n + length evs)) (tracked (run_events evs (daemon_step e st)))"
    by (rule Cons.IH)
  then show ?case by (simp add: run_events_def)
qed

lemma reachable_counted:
  assumes "int (length evs) < 2^31" and "i < length (tracked (run_events evs daemon_init))"
  shows "entry_counted (length evs) (tracked (run_events evs daemon_init) ! i)"
proof -
  have "list_all (entry_counted 0) (tracked daemon_init)" by (simp add: daemon_init_def)
  from run_counted [OF this, of evs] assms(1)
  have "list_all (entry_counted (length evs)) (tracked (run_events evs daemon_init))" by simp
  with assms(2) show ?thesis by (simp add: list_all_length)
qed

lemma reachable_stored_level:
  assumes "int (length evs) < 2^31" and "i < length (tracked (run_events evs daemon_init))"
  shows "spike_samples (tracked (run_events evs daemon_init) ! i) = 0 \<longrightarrow>
           escalation (tracked (run_events evs daemon_init) ! i) = ESCALATION_NONE"
    and "level_value (escalation (tracked (run_events evs daemon_init) ! i))
           \<le> level_value (get_escalation_level (tracked (run_events evs daemon_init) ! i))"
  using reachable_counted [OF assms] by (simp_all add: entry_counted_def)



lemma mem_spike_counts:
  "spike_samples (tracked (run_events (replicate 2 (env_live, 100, MemSpike 7 ''job'' 1800))
      daemon_init) ! 0) = 2"
  "spike_samples (tracked (run_events (replicate 3 (env_live, 100, MemSpike 7 ''job'' 1800))
      daemon_init) ! 0) = 3"
  "spike_samples (tracked (run_events (replicate 6 (env_live, 100, MemSpike 7 ''job'' 1800))
      daemon_init) ! 0) = 6"
  "spike_samples (tracked (run_events (replicate 11 (env_live, 100, MemSpike 7 ''job'' 1800))
      daemon_init) ! 0) = 11"
  by code_simp+

lemma boosted_then_quiet:
  "length (tracked (run_events (replicate 3 (env_live, 101, CpuSpike 7 ''job'' 2500)
      @ [(env_live, 107, RestoreAll)]) daemon_init)) = 1"
  "spike_samples (tracked (run_events (replicate 3 (env_live, 101, CpuSpike 7 ''job'' 2500)
      @ [(env_live, 107, RestoreAll)]) daemon_init) ! 0) = 0"
  by code_simp+


subsection \<open>Cooldown\<close>

text \<open>Inside the window the CPU and I/O handlers leave the sink alone.\<close>

lemma cpu_cooldown_skip:
  assumes "find_tracked (tracked st) pid = Some i" and "adjusted (tracked st ! i)"
    and "now - adjusted_time (tracked st ! i) < cooldown_secs (spike_configs ! 0)"
  shows "sink (handle_cpu_spike os now pid comm_arg roc st) = sink st"
  using assms
  by (simp add: handle_cpu_spike_def track_found cpu_spike_body_def Let_def note_spike_def
      log_action_def)

lemma io_cooldown_skip:
  assumes "find_tracked (tracked st) pid = Some i" and "adjusted (tracked st ! i)"
    and "now - adjusted_time (tracked st ! i) < cooldown_secs (spike_configs ! 2)"
  shows "sink (handle_io_spike os now pid comm_arg roc st) = sink st"
  using assms
  by (simp add: handle_io_spike_def track_found io_spike_body_def Let_def note_spike_def
      log_action_def)

text \<open>A handler call that reached the sink and succeeded opens the window.\<close>

lemma cpu_body_action:
  assumes "i < length (tracked st0)"
    and "sink (cpu_spike_body os now pid comm_arg roc i st0) = sink st0 @ [SetNice pid n]"
    and "dry_run os \<or> setpriority_ok os pid n"
  shows "adjusted (tracked (cpu_spike_body os now pid comm_arg roc i st0) ! i) \<and>
         adjusted_time (tracked (cpu_spike_body os now pid comm_arg roc i st0) ! i) = now"
  using assms
  by (auto simp: cpu_spike_body_def Let_def set_nice_def log_action_def
      split: if_splits prod.splits)

lemma io_body_action:
  assumes "i < length (tracked st0)"
    and "sink (io_spike_body os now pid comm_arg roc i st0) = sink st0 @ [SetIoPriority pid c l]"
    and "dry_run os \<or> ionice_ok os pid c l"
  shows "adjusted (tracked (io_spike_body os now pid comm_arg roc i st0) ! i) \<and>
         adjusted_time (tracked (io_spike_body os now pid comm_arg roc i st0) ! i) = now"
  using assms
  by (auto simp: io_spike_body_def Let_def set_io_priority_def log_action_def
      split: if_splits prod.splits)

lemma cpu_action_opens_window:
  assumes "sink (handle_cpu_spike os now pid comm_arg roc st) = sink st @ [SetNice pid n]"
    and "dry_run os \<or> setpriority_ok os pid n"
  shows "\<exists>i. find_tracked (tracked (handle_cpu_spike os now pid comm_arg roc st)) pid = Some i \<and>
             adjusted (tracked (handle_cpu_spike os now pid comm_arg roc st) ! i) \<and>
             adjusted_time (tracked (handle_cpu_spike os now pid comm_arg roc st) ! i) = now"
proof (cases "track_cpu os now pid comm_arg st")
  case None
  with assms(1) show ?thesis by (simp add: handle_cpu_spike_def)
next
  case (Some r)
  obtain i st0 where r: "r = (i, st0)" by (cases r) auto
  have h: "handle_cpu_spike os now pid comm_arg roc st = cpu_spike_body os now pid comm_arg roc i st0"
    by (simp add: handle_cpu_spike_def Some r)
  from track_cpu_finds [OF Some [unfolded r]]
  have f0: "find_tracked (tracked st0) pid = Some i" and s0: "sink st0 = sink st" by simp_all
  from find_tracked_Some [OF f0] have i: "i < length (tracked st0)" by simp
  from cpu_body_action [OF i _ assms(2)] assms(1)
  have "adjusted (tracked (cpu_spike_body os now pid comm_arg roc i st0) ! i) \<and>
        adjusted_time (tracked (cpu_spike_body os now pid comm_arg roc i st0) ! i) = now"
    by (simp add: h s0)
  moreover from find_tracked_cong [OF cpu_body_pids [OF i], of os now pid comm_arg roc pid] f0
  have "find_tracked (tracked (cpu_spike_body os now pid comm_arg roc i st0)) pid = Some i"
    by simp
  ultimately show ?thesis unfolding h by blast
qed

lemma io_action_opens_window:
  assumes "sink (handle_io_spike os now pid comm_arg roc st) = sink st @ [SetIoPriority pid c l]"
    and "dry_run os \<or> ionice_ok os pid c l"
  shows "\<exists>i. find_tracked (tracked (handle_io_spike os now pid comm_arg roc st)) pid = Some i \<and>
             adjusted (tracked (handle_io_spike os now pid comm_arg roc st) ! i) \<and>
             adjusted_time (tracked (handle_io_spike os now pid comm_arg roc st) ! i) = now"
proof (cases "track now pid comm_arg st")
  case None
  with assms(1) show ?thesis by (simp add: handle_io_spike_def)
next
  case (Some r)
  obtain i st0 where r: "r = (i, st0)" by (cases r) auto
  have h: "handle_io_spike os now pid comm_arg roc st = io_spike_body os now pid comm_arg roc i st0"
    by (simp add: handle_io_spike_def Some r)
  from track_finds [OF Some [unfolded r]]
  have f0: "find_tracked (tracked st0) pid = Some i" and s0: "sink st0 = sink st" by simp_all
  from find_tracked_Some [OF f0] have i: "i < length (tracked st0)" by simp
  from io_body_action [OF i _ assms(2)] assms(1)
  have "adjusted (tracked (io_spike_body os now pid comm_arg roc i st0) ! i) \<and>
        adjusted_time (tracked (io_spike_body os now pid comm_arg roc i st0) ! i) = now"
    by (simp add: h s0)
  moreover from find_tracked_cong [OF io_body_pids [OF i], of os now pid comm_arg roc pid] f0
  have "find_tracked (tracked (io_spike_body os now pid comm_arg roc i st0)) pid = Some i"
    by simp
  ultimately show ?thesis unfolding h by blast
qed



lemma two_spikes_then_cpu:
  "sink (run_events (replicate 2 (env_live, 100, CpuSpike 7 ''job'' 2500)) daemon_init) = []"
  "sink (handle_cpu_spike env_live 101 7 ''job'' 2500
      (run_events (replicate 2 (env_live, 100, CpuSpike 7 ''job'' 2500)) daemon_init))
     = [SetNice 7 (- 5)]"
  "sink (run_events (replicate 2 (env_live, 100, IoSpike 7 ''job'' 1200)) daemon_init) = []"
  "sink (handle_io_spike env_live 101 7 ''job'' 1200
      (run_events (replicate 2 (env_live, 100, IoSpike 7 ''job'' 1200)) daemon_init))
     = [SetIoPriority 7 2 0]"
  "cooldown_secs (spike_configs ! 0) = 10" "cooldown_secs (spike_configs ! 2) = 10"
  by code_simp+


section \<open>Properties of the ranking tool\<close>

lemma read_loop_take:
  "length procs \<le> MAX_PROCS \<Longrightarrow>
     read_loop ls procs
       = procs @ take (MAX_PROCS - length procs) (map parse_process (List.map_filter id ls))"
proof (induction ls arbitrary: procs)
  case Nil
  then show ?case by simp
next
  case (Cons l ls)
  show ?case
  proof (cases "length procs < MAX_PROCS")
    case False
    with Cons.prems show ?thesis by simp
  next
    case True
    show ?thesis
    proof (cases l)
      case None
      with True Cons.IH [OF Cons.prems] show ?thesis
        by simp
    next
      case (Some fs)
      from True have "length (procs @ [parse_process fs]) \<le> MAX_PROCS" by simp
      from Cons.IH [OF this] True Some show ?thesis
        by (simp add: take_Cons')
    qed
  qed
qed

lemma read_stats_take:
  "read_stats file_lines = take MAX_PROCS (map parse_process (List.map_filter id (drop 4 file_lines)))"
  by (simp add: read_stats_def read_loop_take)

lemma clamp_top_n_range: "1 \<le> clamp_top_n n \<and> clamp_top_n n \<le> 100"
  by (simp add: clamp_top_n_def Let_def)

lemma effective_top_n_range: "1 \<le> effective_top_n n_opt \<and> effective_top_n n_opt \<le> 100"
  using clamp_top_n_range by (cases n_opt) (simp_all add: effective_top_n_def)

text \<open>For scores that are not negative, the comparator orders by score, greatest first.\<close>

lemma sint_diff_nonneg:
  fixes a b :: cint
  assumes "0 \<le>s a" and "0 \<le>s b"
  shows "sint (b - a) = sint b - sint a"
proof -
  from assms have "0 \<le> sint a" "0 \<le> sint b" by (simp_all add: word_sle_eq)
  moreover have "sint a < 2^31" "sint b < 2^31"
    using sint_lt [of a] sint_lt [of b] by simp_all
  ultimately have "- (2^31) \<le> sint b - sint a" "sint b - sint a < 2^31" by simp_all
  then show ?thesis
    by (simp add: sint_word_diff signed_take_bit_int_eq_self)
qed

lemma compare_by_score_order:
  assumes "0 \<le>s score a" and "0 \<le>s score b"
  shows "compare_by_score a b \<le>s 0 \<longleftrightarrow> sint (score b) \<le> sint (score a)"
  using sint_diff_nonneg [OF assms] by (simp add: compare_by_score_def word_sle_eq)

lemma qsort_scores:
  assumes "qsort_contract compare_by_score xs ys"
    and "list_all (\<lambda>p. 0 \<le>s score p) xs"
  shows "map (sint \<circ> score) ys = rev (sort (map (sint \<circ> score) xs))"
proof -
  from assms(1) have m: "mset ys = mset xs"
    and s: "sorted_wrt (\<lambda>a b. compare_by_score a b \<le>s 0) ys"
    by (simp_all add: qsort_contract_def)
  from m have "set ys = set xs" by (rule mset_eq_setD)
  with assms(2) have nn: "\<And>p. p \<in> set ys \<Longrightarrow> 0 \<le>s score p"
    by (simp add: list_all_iff)
  have "sorted_wrt (\<lambda>a b. sint (score b) \<le> sint (score a)) ys"
    by (rule sorted_wrt_mono_rel [OF _ s]) (simp add: compare_by_score_order nn)
  then have "sorted (rev (map (sint \<circ> score) ys))"
    by (simp add: sorted_wrt_rev sorted_wrt_map)
  moreover have "mset (rev (map (sint \<circ> score) ys)) = mset (map (sint \<circ> score) xs)"
    using m by simp
  ultimately have "sort (map (sint \<circ> score) xs) = rev (map (sint \<circ> score) ys)"
    by (intro properties_for_sort)
  then show ?thesis by simp
qed

text \<open>The order of two processes with the same score is left to the library.\<close>

lemma tie_order_open:
  "score a = score b \<Longrightarrow>
     qsort_contract compare_by_score [a, b] [a, b] \<and> qsort_contract compare_by_score [a, b] [b, a]"
  by (simp add: qsort_contract_def compare_by_score_def word_sle_eq)

lemma stats_example_read:
  "read_stats stats_example =
     [parse_process (11, 500, 10, 0, 10, 0, 0), parse_process (12, 9400, 800, 30, 6000, 2500, 500),
      parse_process (13, 700, 10, 0, - 50, 0, 0), parse_process (14, 900, 40, 10, 100, - 60, 40)]"
  "map (sint \<circ> score) (read_stats stats_example) = [10, 9000, 50, 200]"
  by (simp_all add: read_stats_take stats_example_def MAX_PROCS_def
      parse_process_def c_abs_def word_sless_alt)




end
